theory Spec2Isabelle
  imports Main "HOL-Library.Signed_Division"
begin

section \<open>Conventions\<close>

text \<open>
  Go's \<^verbatim>\<open>int\<close> is 64 bits wide and its sums and differences wrap around; the model
  works on \<^typ>\<open>int\<close>. The renderer's \<^verbatim>\<open>findWindow\<close> is a function of three
  numbers and what it returns for large ones is among the properties below, so each of
  its sums and differences is written with the wrap-around, \<open>wrap\<close>. The listing's
  \<^verbatim>\<open>findWindow\<close> subtracts from \<^verbatim>\<open>maxHeight\<close> only a smaller line count, and
  otherwise adds up and compares line counts of texts held in memory; these sums, like
  the indices and the heights of a terminal elsewhere, stay far from the 64-bit range
  and are written without the wrap-around. Go's \<^verbatim>\<open>/\<close> on integers truncates
  towards zero: it is \<open>sdiv\<close>, not HOL's flooring \<open>div\<close>.
\<close>

definition wrap :: "int \<Rightarrow> int" where
  "wrap x = (x + 2 ^ 63) mod 2 ^ 64 - 2 ^ 63"

section \<open>Package clitypes: the shared editor state\<close>

text \<open>
  \<^verbatim>\<open>ui.Key\<close> is a rune and a modifier set. \<^verbatim>\<open>clitypes.Mode\<close> is an interface
  value: \<^verbatim>\<open>nil\<close>, the placeholder \<^verbatim>\<open>dummyMode{}\<close>, or a mode supplied from
  elsewhere (identified by a handle of type \<open>'m\<close>). \<^verbatim>\<open>HandlerAction\<close> is an integer
  type; its declaration is not among the sources, and \<^verbatim>\<open>NoAction\<close> is taken to be
  its zero value, the literal \<^verbatim>\<open>0\<close> that the listing code returns for no action.
\<close>

record Key =
  Rune :: int
  Mod :: nat

datatype 'm Mode = nilMode | dummyMode | otherMode 'm

type_synonym HandlerAction = int

definition NoAction :: HandlerAction where
  "NoAction = 0"

record PendingCode =
  Begin :: int
  End :: int
  Text :: string

text \<open>
  \<^verbatim>\<open>RawState\<close>, field for field. \<^verbatim>\<open>Code\<close> is a Go string, a sequence of bytes:
  \<^typ>\<open>string\<close> with one \<^typ>\<open>char\<close> per byte, so that \<open>length\<close> is Go's
  \<^verbatim>\<open>len\<close>. A nil slice of notes is the empty list.
\<close>

record 'm RawState =
  Mode :: "'m Mode"
  Code :: string
  Dot :: int
  Pending :: "PendingCode option"
  Notes :: "string list"
  BindingKey :: Key

text \<open>
  \<^verbatim>\<open>State\<close> wraps a \<^verbatim>\<open>RawState\<close> and a mutex. Every method locks for its whole
  body, so a method is one atomic step on the raw state: a function from the raw state
  to the value returned and the raw state left behind.
  \<^verbatim>\<open>
  func (s *State) PopForRedraw() *RawState {
      s.Mutex.Lock(); defer s.Mutex.Unlock()
      raw := s.Raw
      s.Raw.Notes = nil
      return &raw
  }
  func (s *State) Finalize() *RawState {
      s.Mutex.RLock(); defer s.Mutex.RUnlock()
      return &RawState{
          dummyMode{}, s.Raw.Code, len(s.Raw.Code), nil, s.Raw.Notes, ui.Key{}}
  }
  \<close>
\<close>

definition PopForRedraw :: "'m RawState \<Rightarrow> 'm RawState \<times> 'm RawState" where
  "PopForRedraw s = (let raw = s in (raw, s\<lparr>Notes := []\<rparr>))"

definition Finalize :: "'m RawState \<Rightarrow> 'm RawState \<times> 'm RawState" where
  "Finalize s =
     (\<lparr>Mode = dummyMode, Code = Code s, Dot = int (length (Code s)), Pending = None,
       Notes = Notes s, BindingKey = \<lparr>Rune = 0, Mod = 0\<rparr>\<rparr>, s)"

definition SetMode :: "'m Mode \<Rightarrow> 'm RawState \<Rightarrow> 'm RawState" where
  "SetMode mode s = s\<lparr>Mode := mode\<rparr>"

definition AddNote :: "string \<Rightarrow> 'm RawState \<Rightarrow> 'm RawState" where
  "AddNote note s = s\<lparr>Notes := Notes s @ [note]\<rparr>"

definition SetBindingKey :: "Key \<Rightarrow> 'm RawState \<Rightarrow> 'm RawState" where
  "SetBindingKey k s = s\<lparr>BindingKey := k\<rparr>"

text \<open>
  What the code below takes from outside the repository's sources: the key
  \<^verbatim>\<open>ui.Default\<close> of a table's default entry, the rune of the backspace key
  (\<^verbatim>\<open>ui.Backspace\<close>), the printed form of a key (\<^verbatim>\<open>k.String()\<close>) and
  \<^verbatim>\<open>unicode.IsGraphic\<close>. They are parameters, gathered in one record.
\<close>

record Ext =
  ui_Default :: Key
  ui_Backspace :: int
  key_String :: "Key \<Rightarrow> string"
  unicode_IsGraphic :: "int \<Rightarrow> bool"

section \<open>Go's runes and strings\<close>

text \<open>
  The listing mode's filter is a Go string, edited with \<^verbatim>\<open>string(k.Rune)\<close> and
  \<^verbatim>\<open>utf8.DecodeLastRuneInString\<close>. Both belong to Go itself, not to this repository;
  they are written out here after the language specification and the \<^verbatim>\<open>unicode/utf8\<close>
  package, on bytes as natural numbers: \<^verbatim>\<open>b & 0x3F\<close> is \<open>b mod 64\<close>,
  \<^verbatim>\<open>r >> 6\<close> is \<open>r div 64\<close>, and \<^verbatim>\<open>t | x\<close> is \<open>t + x\<close> where the bits of
  \<open>t\<close> and \<open>x\<close> are disjoint.
\<close>

definition RuneError :: int where
  "RuneError = 0xFFFD"

definition validRune :: "int \<Rightarrow> bool" where
  "validRune r = (0 \<le> r \<and> r \<le> 0x10FFFF \<and> \<not> (0xD800 \<le> r \<and> r \<le> 0xDFFF))"

text \<open>
  \<^verbatim>\<open>string(r)\<close> for a rune \<open>r\<close>: the UTF-8 encoding of \<open>r\<close>, and that of U+FFFD when
  \<open>r\<close> is not a valid code point (\<^verbatim>\<open>utf8.EncodeRune\<close>).
\<close>

definition EncodeRune :: "int \<Rightarrow> string" where
  "EncodeRune r0 =
     (let r = nat (if validRune r0 then r0 else RuneError)
      in if r \<le> 0x7F then [char_of r]
         else if r \<le> 0x7FF then [char_of (0xC0 + r div 64), char_of (0x80 + r mod 64)]
         else if r \<le> 0xFFFF then
           [char_of (0xE0 + r div 4096), char_of (0x80 + r div 64 mod 64),
            char_of (0x80 + r mod 64)]
         else
           [char_of (0xF0 + r div 262144), char_of (0x80 + r div 4096 mod 64),
            char_of (0x80 + r div 64 mod 64), char_of (0x80 + r mod 64)])"

text \<open>
  The table \<^verbatim>\<open>first\<close> with \<^verbatim>\<open>acceptRanges\<close>: for a leading byte of a multi-byte
  sequence, the sequence's length and the range allowed for its second byte;
  \<open>None\<close> for a byte that starts none (the entries \<^verbatim>\<open>xx\<close>). ASCII bytes are
  handled before the table is read.
\<close>

definition firstInfo :: "nat \<Rightarrow> (nat \<times> nat \<times> nat) option" where
  "firstInfo b =
     (if 0xC2 \<le> b \<and> b \<le> 0xDF then Some (2, 0x80, 0xBF)
      else if b = 0xE0 then Some (3, 0xA0, 0xBF)
      else if 0xE1 \<le> b \<and> b \<le> 0xEC then Some (3, 0x80, 0xBF)
      else if b = 0xED then Some (3, 0x80, 0x9F)
      else if 0xEE \<le> b \<and> b \<le> 0xEF then Some (3, 0x80, 0xBF)
      else if b = 0xF0 then Some (4, 0x90, 0xBF)
      else if 0xF1 \<le> b \<and> b \<le> 0xF3 then Some (4, 0x80, 0xBF)
      else if b = 0xF4 then Some (4, 0x80, 0x8F)
      else None)"

definition DecodeRuneInString :: "string \<Rightarrow> int \<times> int" where
  "DecodeRuneInString s =
     (let bs = map of_char s :: nat list; n = length bs
      in if n < 1 then (RuneError, 0)
         else let s0 = bs ! 0
         in if s0 < 0x80 then (int s0, 1)
            else case firstInfo s0 of
              None \<Rightarrow> (RuneError, 1)
            | Some (sz, lo, hi) \<Rightarrow>
                if n < sz then (RuneError, 1)
                else let s1 = bs ! 1
                in if s1 < lo \<or> hi < s1 then (RuneError, 1)
                   else if sz \<le> 2 then (int (s0 mod 32 * 64 + s1 mod 64), 2)
                   else let s2 = bs ! 2
                   in if s2 < 0x80 \<or> 0xBF < s2 then (RuneError, 1)
                      else if sz \<le> 3 then
                        (int (s0 mod 16 * 4096 + s1 mod 64 * 64 + s2 mod 64), 3)
                      else let s3 = bs ! 3
                      in if s3 < 0x80 \<or> 0xBF < s3 then (RuneError, 1)
                         else (int (s0 mod 8 * 262144 + s1 mod 64 * 4096
                                    + s2 mod 64 * 64 + s3 mod 64), 4))"

definition RuneStart :: "nat \<Rightarrow> bool" where
  "RuneStart b = (b div 64 \<noteq> 2)"

text \<open>
  The backward scan of \<^verbatim>\<open>DecodeLastRuneInString\<close>:
  \<^verbatim>\<open>for start--; start >= lim; start-- { if RuneStart(s[start]) { break } }\<close>,
  entered after the decrement. The limit is never negative, so the test \<open>0 \<le> start\<close>,
  which the termination proof uses, changes nothing.
\<close>

function scanStart :: "string \<Rightarrow> int \<Rightarrow> int \<Rightarrow> int" where
  "scanStart s lim start =
     (if start \<ge> lim \<and> 0 \<le> start then
        (if RuneStart (of_char (s ! nat start)) then start else scanStart s lim (start - 1))
      else start)"
  by pat_completeness auto
termination
  by (relation "measure (\<lambda>(s, lim, start). nat (start + 1))") auto

declare scanStart.simps [simp del]

definition DecodeLastRuneInString :: "string \<Rightarrow> int \<times> int" where
  "DecodeLastRuneInString s =
     (let end = int (length s)
      in if end = 0 then (RuneError, 0)
         else let start = end - 1; r = of_char (s ! nat start) :: nat
         in if r < 0x80 then (int r, 1)
            else let lim = (if end - 4 < 0 then 0 else end - 4);
                     start = scanStart s lim (start - 1);
                     start = (if start < 0 then 0 else start);
                     (r, size) = DecodeRuneInString (drop (nat start) s)
                 in if start + size \<noteq> end then (RuneError, 1) else (r, size))"

section \<open>Package listing\<close>

text \<open>
  \<^verbatim>\<open>Items\<close> is an interface with \<^verbatim>\<open>Len()\<close>, \<^verbatim>\<open>Show(i)\<close> and
  \<^verbatim>\<open>Accept(i, st)\<close>. The listing code reads a shown text only through
  \<^verbatim>\<open>CountLines()\<close> (package styled, not among the sources), so \<open>ShowCountLines\<close>
  stands for \<^verbatim>\<open>Show(i).CountLines()\<close>. \<^verbatim>\<open>Accept\<close> may change the editor state.
\<close>

record 'm Items =
  Len :: int
  ShowCountLines :: "int \<Rightarrow> int"
  Accept :: "int \<Rightarrow> 'm RawState \<Rightarrow> 'm RawState"

text \<open>
  The viewport of the listing.
  \<^verbatim>\<open>
  var respectDistance = 2

  func findWindow(items Items, oldFirst, selected, maxHeight int) (first, crop int) {
      n := items.Len()
      selectedHeight := items.Show(selected).CountLines()
      if maxHeight <= selectedHeight {
          return selected, 0
      }
      budget := maxHeight - selectedHeight
      budgetUp := 0
      if budget >= 2*respectDistance {
          budgetUp = budget - respectDistance
      } else {
          budgetUp = budget / 2
      }
      budgetDown := budget - budgetUp
      useDown := 0
      for i := selected + 1; i < n; i++ {
          useDown += items.Show(i).CountLines()
          if useDown >= budget {
              break
          }
      }
      if budgetDown > useDown {
          budgetUp += budgetDown - useDown
      }
      useUp := 0
      for i := selected - 1; i >= 0; i-- {
          useUp += items.Show(i).CountLines()
          if useUp >= budgetUp {
              return i, useUp - budgetUp
          }
          if i <= oldFirst && useUp >= respectDistance && useUp+useDown >= budget {
              return i, 0
          }
      }
      return 0, 0
  }
  \<close>
  Each loop is a recursive function of the loop variable and the running sum.
\<close>

definition respectDistance :: int where
  "respectDistance = 2"

function useDownLoop :: "'m Items \<Rightarrow> int \<Rightarrow> int \<Rightarrow> int \<Rightarrow> int" where
  "useDownLoop its budget i useDown =
     (if i < Len its then
        (let useDown' = useDown + ShowCountLines its i
         in if useDown' \<ge> budget then useDown'
            else useDownLoop its budget (i + 1) useDown')
      else useDown)"
  by pat_completeness auto
termination
  by (relation "measure (\<lambda>(its, budget, i, useDown). nat (Len its - i))") auto

declare useDownLoop.simps [simp del]

function useUpLoop ::
  "'m Items \<Rightarrow> int \<Rightarrow> int \<Rightarrow> int \<Rightarrow> int \<Rightarrow> int \<Rightarrow> int \<Rightarrow> int \<times> int" where
  "useUpLoop its oldFirst budget budgetUp useDown i useUp =
     (if i \<ge> 0 then
        (let useUp' = useUp + ShowCountLines its i
         in if useUp' \<ge> budgetUp then (i, useUp' - budgetUp)
            else if i \<le> oldFirst \<and> useUp' \<ge> respectDistance \<and> useUp' + useDown \<ge> budget
            then (i, 0)
            else useUpLoop its oldFirst budget budgetUp useDown (i - 1) useUp')
      else (0, 0))"
  by pat_completeness auto
termination
  by (relation "measure (\<lambda>(its, oldFirst, budget, budgetUp, useDown, i, useUp). nat (i + 1))")
    auto

declare useUpLoop.simps [simp del]

definition findWindow :: "'m Items \<Rightarrow> int \<Rightarrow> int \<Rightarrow> int \<Rightarrow> int \<times> int" where
  "findWindow its oldFirst selected maxHeight =
     (let n = Len its;
          selectedHeight = ShowCountLines its selected
      in if maxHeight \<le> selectedHeight then (selected, 0)
         else
           let budget = maxHeight - selectedHeight;
               budgetUp = (if budget \<ge> 2 * respectDistance then budget - respectDistance
                           else budget sdiv 2);
               budgetDown = budget - budgetUp;
               useDown = useDownLoop its budget (selected + 1) 0;
               budgetUp = (if budgetDown > useDown then budgetUp + (budgetDown - useDown)
                           else budgetUp)
           in useUpLoop its oldFirst budget budgetUp useDown (selected - 1) 0)"




text \<open>
  The items of the package's tests, \<^verbatim>\<open>fakeItems{n}\<close>: \<open>n\<close> items, item \<open>i\<close> shown as
  the decimal number \<open>i\<close> on one line, accepting does nothing.
\<close>

definition fakeItems :: "int \<Rightarrow> 'm Items" where
  "fakeItems n = \<lparr>Len = n, ShowCountLines = (\<lambda>i. 1), Accept = (\<lambda>i st. st)\<rparr>"

text \<open>
  Modelled from the spec: the listing mode's \<^verbatim>\<open>State\<close> struct and its method
  \<^verbatim>\<open>refilter\<close> are declared in a file that is not among the sources. The fields are
  those the source reads and writes (\<open>filter_text\<close> is the field \<^verbatim>\<open>filter\<close>);
  \<open>refilter\<close> follows "every change re-invokes the item-producer with the new filter and
  resets \<open>selectedIndex\<close>/\<open>firstVisibleIndex\<close> per the \<open>selectLast\<close> configuration
  (selected = 0, or count-1 if \<open>selectLast\<close>)". The spec gives no value for the reset
  first visible index; 0 is taken, and nothing below reads it.
\<close>

record 'm State =
  itemsGetter :: "string \<Rightarrow> 'm Items"
  selectLast :: bool
  filtering :: bool
  filter_text :: string
  items :: "'m Items"
  first :: int
  selected :: int

definition refilter :: "string \<Rightarrow> 'm State \<Rightarrow> 'm State" where
  "refilter f st =
     (let its = itemsGetter st f
      in st\<lparr>filter_text := f, items := its, first := 0,
            selected := (if selectLast st then Len its - 1 else 0)\<rparr>)"

text \<open>\<^verbatim>\<open>ui.K(r)\<close> with no modifier.\<close>

definition K :: "int \<Rightarrow> Key" where
  "K r = \<lparr>Rune = r, Mod = 0\<rparr>"

text \<open>
  \<^verbatim>\<open>
  func likeChar(k ui.Key) bool {
      return k.Mod == 0 && k.Rune > 0 && unicode.IsGraphic(k.Rune)
  }
  func defaultHandler(k ui.Key, st *clitypes.State, mst *State) clitypes.HandlerAction {
      if mst.filtering {
          filter := mst.filter
          if k == ui.K(ui.Backspace) {
              _, size := utf8.DecodeLastRuneInString(filter)
              if size > 0 {
                  mst.refilter(filter[:len(filter)-size])
              }
          } else if likeChar(k) {
              mst.refilter(mst.filter + string(k.Rune))
          } else {
              st.AddNote("Unbound: " + k.String())
          }
          return 0
      }
      st.SetMode(nil)
      return 0
  }
  \<close>
  The model returns the action together with the editor state and the listing state
  left behind.
\<close>

definition likeChar :: "Ext \<Rightarrow> Key \<Rightarrow> bool" where
  "likeChar ext k = (Mod k = 0 \<and> Rune k > 0 \<and> unicode_IsGraphic ext (Rune k))"

definition defaultHandler ::
  "Ext \<Rightarrow> Key \<Rightarrow> 'm RawState \<Rightarrow> 'm State \<Rightarrow> HandlerAction \<times> 'm RawState \<times> 'm State" where
  "defaultHandler ext k st mst =
     (if filtering mst then
        (let filter = filter_text mst
         in if k = K (ui_Backspace ext) then
              (let size = snd (DecodeLastRuneInString filter)
               in if size > 0
                  then (0, st, refilter (take (nat (int (length filter) - size)) filter) mst)
                  else (0, st, mst))
            else if likeChar ext k then
              (0, st, refilter (filter_text mst @ EncodeRune (Rune k)) mst)
            else (0, AddNote (''Unbound: '' @ key_String ext k) st, mst))
      else (0, SetMode nilMode st, mst))"

text \<open>
  The listing \<^verbatim>\<open>Mode\<close> embeds its \<^verbatim>\<open>StartConfig\<close> and holds the state (the mutex
  again makes each method one step). \<^verbatim>\<open>KeyHandler\<close>, a Go closure, is not a field of
  the model's configuration: \<open>HandleEvent\<close> below takes it as an argument.
  \<^verbatim>\<open>
  func (m *Mode) DefaultHandler(st *clitypes.State) {
      m.stateMutex.Lock(); defer m.stateMutex.Unlock()
      defaultHandler(st.BindingKey(), st, &m.state)
      if m.AutoAccept && m.state.items.Len() == 1 {
          m.state.items.Accept(0, st)
          st.SetMode(nil)
      }
  }
  \<close>
\<close>

record 'm StartConfig =
  Name :: string
  ItemsGetter :: "string \<Rightarrow> 'm Items"
  StartFilter :: bool
  AutoAccept :: bool
  SelectLast :: bool

record 'm listing_Mode =
  config :: "'m StartConfig"
  state :: "'m State"

definition DefaultHandler ::
  "Ext \<Rightarrow> 'm listing_Mode \<Rightarrow> 'm RawState \<Rightarrow> 'm RawState \<times> 'm listing_Mode" where
  "DefaultHandler ext m st =
     (let (_, st1, mst1) = defaultHandler ext (BindingKey st) st (state m);
          m1 = m\<lparr>state := mst1\<rparr>
      in if AutoAccept (config m) \<and> Len (items mst1) = 1
         then (SetMode nilMode (Accept (items mst1) 0 st1), m1)
         else (st1, m1))"

text \<open>
  Modelled from the spec: the methods of the listing \<^verbatim>\<open>State\<close> that move the selection
  and toggle the filtering are in the file that is not among the sources. They follow
  "\<open>down\<close>/\<open>up\<close> stop at the boundaries (index 0 and count-1, no wraparound);
  \<open>downCycle\<close>/\<open>upCycle\<close> wrap around the ends" and "a dedicated key toggles
  \<open>filteringEnabled\<close>".
\<close>

definition Down :: "'m State \<Rightarrow> 'm State" where
  "Down mst = (if selected mst < Len (items mst) - 1 then mst\<lparr>selected := selected mst + 1\<rparr>
               else mst)"

definition Up :: "'m State \<Rightarrow> 'm State" where
  "Up mst = (if selected mst > 0 then mst\<lparr>selected := selected mst - 1\<rparr> else mst)"

definition DownCycle :: "'m State \<Rightarrow> 'm State" where
  "DownCycle mst = (if selected mst < Len (items mst) - 1 then mst\<lparr>selected := selected mst + 1\<rparr>
                    else mst\<lparr>selected := 0\<rparr>)"

definition UpCycle :: "'m State \<Rightarrow> 'm State" where
  "UpCycle mst = (if selected mst > 0 then mst\<lparr>selected := selected mst - 1\<rparr>
                  else mst\<lparr>selected := Len (items mst) - 1\<rparr>)"

definition ToggleFiltering :: "'m State \<Rightarrow> 'm State" where
  "ToggleFiltering mst = mst\<lparr>filtering := \<not> filtering mst\<rparr>"

text \<open>
  The keys that the built-in binding names. The runes \<^verbatim>\<open>ui.Down\<close>, \<^verbatim>\<open>ui.Up\<close> and
  \<^verbatim>\<open>ui.Tab\<close> and the modifiers \<^verbatim>\<open>ui.Ctrl\<close> and \<^verbatim>\<open>ui.Shift\<close> are constants of
  package ui, which is not among the sources; they are parameters. \<open>KMod r m\<close> is
  \<^verbatim>\<open>ui.K(r, m)\<close>, the key of rune \<open>r\<close> with the modifier \<open>m\<close>.
\<close>

record KeyNames =
  ui_Down :: int
  ui_Up :: int
  ui_Tab :: int
  ui_Ctrl :: nat
  ui_Shift :: nat

definition KMod :: "int \<Rightarrow> nat \<Rightarrow> Key" where
  "KMod r m = \<lparr>Rune = r, Mod = m\<rparr>"

text \<open>
  The built-in binding, used when the configuration has no \<^verbatim>\<open>KeyHandler\<close>. The cases
  of the \<^verbatim>\<open>switch\<close> are tried in order.
  \<^verbatim>\<open>
  func (m *Mode) HandleEvent(e tty.Event, st *clitypes.State) clitypes.HandlerAction {
      switch e := e.(type) {
      case tty.KeyEvent:
          if m.KeyHandler == nil {
              m.stateMutex.Lock()
              defer m.stateMutex.Unlock()
              return defaultBinding(ui.Key(e), st, &m.state)
          }
          return m.KeyHandler(ui.Key(e))
      default:
          return clitypes.NoAction
      }
  }
  func defaultBinding(k ui.Key, st *clitypes.State, mst *State) clitypes.HandlerAction {
      switch k {
      case ui.K('[', ui.Ctrl):
          st.SetMode(nil)
      case ui.K(ui.Down):
          mst.Down()
      case ui.K(ui.Up):
          mst.Up()
      case ui.K(ui.Tab):
          mst.DownCycle()
      case ui.K(ui.Tab, ui.Shift):
          mst.UpCycle()
      case ui.K('F', ui.Ctrl):
          mst.ToggleFiltering()
      default:
          return defaultHandler(k, st, mst)
      }
      return 0
  }
  \<close>
  An event is a key event or an event of another type. A \<^verbatim>\<open>KeyHandler\<close> gets the key
  only and acts on what it has captured; the model hands it the editor state and the
  mode, and takes them back with the action.
\<close>

definition defaultBinding ::
  "KeyNames \<Rightarrow> Ext \<Rightarrow> Key \<Rightarrow> 'm RawState \<Rightarrow> 'm State
     \<Rightarrow> HandlerAction \<times> 'm RawState \<times> 'm State" where
  "defaultBinding names ext k st mst =
     (if k = KMod 0x5B (ui_Ctrl names) then (0, SetMode nilMode st, mst)
      else if k = K (ui_Down names) then (0, st, Down mst)
      else if k = K (ui_Up names) then (0, st, Up mst)
      else if k = K (ui_Tab names) then (0, st, DownCycle mst)
      else if k = KMod (ui_Tab names) (ui_Shift names) then (0, st, UpCycle mst)
      else if k = KMod 0x46 (ui_Ctrl names) then (0, st, ToggleFiltering mst)
      else defaultHandler ext k st mst)"

datatype Event = KeyEvent Key | OtherEvent

type_synonym 'm KeyHandler =
  "Key \<Rightarrow> 'm RawState \<Rightarrow> 'm listing_Mode \<Rightarrow> HandlerAction \<times> 'm RawState \<times> 'm listing_Mode"

definition HandleEvent ::
  "KeyNames \<Rightarrow> Ext \<Rightarrow> 'm KeyHandler option \<Rightarrow> 'm listing_Mode \<Rightarrow> Event \<Rightarrow> 'm RawState
     \<Rightarrow> HandlerAction \<times> 'm RawState \<times> 'm listing_Mode" where
  "HandleEvent names ext handler m e st =
     (case e of
        KeyEvent k \<Rightarrow>
          (case handler of
             None \<Rightarrow>
               (let (a, st1, mst1) = defaultBinding names ext k st (state m)
                in (a, st1, m\<lparr>state := mst1\<rparr>))
           | Some h \<Rightarrow> h k st m)
      | OtherEvent \<Rightarrow> (NoAction, st, m))"

section \<open>Package clicore: the renderer's window helper\<close>

text \<open>
  \<^verbatim>\<open>
  func findWindow(i, n, size int) (int, int) {
      low := i - size/2
      high := low + size
      if low < 0 {
          return 0, size
      } else if high > n {
          return n - size, n
      }
      return low, high
  }
  \<close>
  The listing package has a function of the same name, so this one carries its package
  name as a prefix.
\<close>

definition clicore_findWindow :: "int \<Rightarrow> int \<Rightarrow> int \<Rightarrow> int \<times> int" where
  "clicore_findWindow i n sz =
     (let low = wrap (i - sz sdiv 2);
          high = wrap (low + sz)
      in if low < 0 then (0, sz)
         else if high > n then (wrap (n - sz), n)
         else (low, high))"

text \<open>
  \<^verbatim>\<open>mainRenderer.Render\<close> works on rendered buffers (\<^verbatim>\<open>ui.Buffer\<close>), of which it
  reads the lines and the line of the dot. \<^verbatim>\<open>ui.Render\<close> yields no buffer (nil) for
  a mode without mode line. A failure of the Go code (a panic) is a value of the model:
  a function that can fail returns \<open>Inl\<close> of the failure or \<open>Inr\<close> of its result.

  Modelled from the spec: \<^verbatim>\<open>ui.BuffersHeight\<close> is not among the sources; "code
  area + mode line both fit" is read as the sum of the buffers' line counts, a missing
  buffer counting 0.
\<close>

record 'l Buffer =
  Lines :: "'l list"
  DotLine :: int

definition BuffersHeight :: "'l Buffer option list \<Rightarrow> int" where
  "BuffersHeight bufs =
     sum_list (map (\<lambda>b. case b of None \<Rightarrow> 0 | Some b \<Rightarrow> int (length (Lines b))) bufs)"

datatype panic = SliceBoundsOutOfRange | NilPointerDereference

text \<open>
  Modelled from the spec: \<^verbatim>\<open>Buffer.TrimToLines(low, high)\<close> of package ui is not among
  the sources. "Crop the code area to a window", "crop the mode line itself to one line"
  and "show only the cursor's own code line" are read as keeping the lines from \<open>low\<close>
  up to, not including, \<open>high\<close>, the dot keeping its line. Where the range does not lie
  within the buffer's lines there is no such window of the buffer: the Go method slices
  the lines by the range, and the model fails as a slice expression out of range does.
\<close>

definition TrimToLines :: "'l Buffer \<Rightarrow> int \<Rightarrow> int \<Rightarrow> panic + 'l Buffer" where
  "TrimToLines b low high =
     (if 0 \<le> low \<and> low \<le> high \<and> high \<le> int (length (Lines b)) then
        Inr \<lparr>Lines = take (nat (high - low)) (drop (nat low) (Lines b)),
             DotLine = DotLine b - low\<rparr>
      else Inl SliceBoundsOutOfRange)"

text \<open>
  What \<^verbatim>\<open>Render\<close> asks of the mode: its rendered mode line, whether it is a
  \<^verbatim>\<open>Lister\<close> (and then the rendered listing for a height), the flag
  \<^verbatim>\<open>RedrawModeLineAfterList\<close> and the mode line rendered again after the listing.
  The result holds the three buffers handed to \<^verbatim>\<open>buf.Extend\<close> and \<^verbatim>\<open>hListing\<close>.
  \<open>allocate\<close> is the \<^verbatim>\<open>switch\<close>: it yields the code buffer and the mode line as the
  switch leaves them, and \<^verbatim>\<open>hListing\<close>, or the failure of a trimming. In the third
  case the mode line is trimmed first; were there no mode line, the call on the nil
  buffer would fail.
  \<^verbatim>\<open>
  hListing := 0
  switch {
  case r.maxHeight >= ui.BuffersHeight(bufCode, bufMode):
      hListing = r.maxHeight - ui.BuffersHeight(bufCode, bufMode)
  case r.maxHeight >= ui.BuffersHeight(bufMode)+1:
      hCode := r.maxHeight - ui.BuffersHeight(bufMode)
      low, high := findWindow(bufCode.Dot.Line, len(bufCode.Lines), hCode)
      bufCode.TrimToLines(low, high)
  case r.maxHeight >= 2:
      bufMode.TrimToLines(0, 1)
      hCode := r.maxHeight - 1
      low, high := findWindow(bufCode.Dot.Line, len(bufCode.Lines), hCode)
      bufCode.TrimToLines(low, high)
  default:
      bufMode = nil
      dotLine := bufCode.Dot.Line
      bufCode.TrimToLines(dotLine, dotLine+1)
  }
  var bufListing *ui.Buffer
  lister, isLister := mode.(clitypes.Lister)
  if hListing > 0 && isLister {
      bufListing = ui.Render(lister.List(hListing), buf.Width)
      if mode.ModeRenderFlag()&clitypes.RedrawModeLineAfterList != 0 {
          bufMode = ui.Render(mode.ModeLine(), buf.Width)
      }
  }
  \<close>
\<close>

record 'l ModeView =
  modeLine :: "'l Buffer option"
  lister :: "(int \<Rightarrow> 'l Buffer option) option"
  redrawModeLineAfterList :: bool
  modeLineAfterList :: "'l Buffer option"

record 'l Rendered =
  outCode :: "'l Buffer"
  outMode :: "'l Buffer option"
  outListing :: "'l Buffer option"
  hListing :: int

definition allocate ::
  "int \<Rightarrow> 'l Buffer \<Rightarrow> 'l Buffer option \<Rightarrow> panic + ('l Buffer \<times> 'l Buffer option \<times> int)" where
  "allocate maxHeight bufCode bufMode =
     (if maxHeight \<ge> BuffersHeight [Some bufCode, bufMode] then
        Inr (bufCode, bufMode, maxHeight - BuffersHeight [Some bufCode, bufMode])
      else if maxHeight \<ge> BuffersHeight [bufMode] + 1 then
        (let hCode = maxHeight - BuffersHeight [bufMode];
             (low, high) = clicore_findWindow (DotLine bufCode) (int (length (Lines bufCode))) hCode
         in case TrimToLines bufCode low high of
              Inl p \<Rightarrow> Inl p
            | Inr bufCode' \<Rightarrow> Inr (bufCode', bufMode, 0))
      else if maxHeight \<ge> 2 then
        (case bufMode of
           None \<Rightarrow> Inl NilPointerDereference
         | Some m \<Rightarrow>
             (case TrimToLines m 0 1 of
                Inl p \<Rightarrow> Inl p
              | Inr m' \<Rightarrow>
                  (let hCode = maxHeight - 1;
                       (low, high) =
                         clicore_findWindow (DotLine bufCode) (int (length (Lines bufCode))) hCode
                   in case TrimToLines bufCode low high of
                        Inl p \<Rightarrow> Inl p
                      | Inr bufCode' \<Rightarrow> Inr (bufCode', Some m', 0))))
      else
        (let dotLine = DotLine bufCode
         in case TrimToLines bufCode dotLine (dotLine + 1) of
              Inl p \<Rightarrow> Inl p
            | Inr bufCode' \<Rightarrow> Inr (bufCode', None, 0)))"

definition mainRenderer_Render :: "int \<Rightarrow> 'l Buffer \<Rightarrow> 'l ModeView \<Rightarrow> panic + 'l Rendered" where
  "mainRenderer_Render maxHeight bufCode mode =
     (case allocate maxHeight bufCode (modeLine mode) of
        Inl p \<Rightarrow> Inl p
      | Inr (bufCode', bufMode, h) \<Rightarrow>
          (case lister mode of
             Some list \<Rightarrow>
               if h > 0 then
                 Inr \<lparr>outCode = bufCode',
                      outMode = (if redrawModeLineAfterList mode then modeLineAfterList mode
                                 else bufMode),
                      outListing = list h, hListing = h\<rparr>
               else Inr \<lparr>outCode = bufCode', outMode = bufMode, outListing = None, hListing = h\<rparr>
           | None \<Rightarrow>
               Inr \<lparr>outCode = bufCode', outMode = bufMode, outListing = None, hListing = h\<rparr>))"

section \<open>Package newedit: key bindings\<close>

text \<open>
  Modelled from the spec: \<^verbatim>\<open>eddefs.BindingMap\<close> with \<^verbatim>\<open>HasKey\<close> and \<^verbatim>\<open>GetKey\<close> is
  not among the sources. A binding table is "an ordered mapping from Key to Handler, plus
  an optional wildcard/default entry": a map from keys to handlers, the default entry
  being the one under the key \<^verbatim>\<open>ui.Default\<close>.
\<close>

type_synonym 'f bindingMap = "Key \<Rightarrow> 'f option"

definition HasKey :: "'f bindingMap \<Rightarrow> Key \<Rightarrow> bool" where
  "HasKey binding k = (case binding k of None \<Rightarrow> False | Some _ \<Rightarrow> True)"

definition GetKey :: "'f bindingMap \<Rightarrow> Key \<Rightarrow> 'f option" where
  "GetKey binding k = binding k"

text \<open>
  \<^verbatim>\<open>
  func indexLayeredBindings(k ui.Key, bindings ...*bindingMap) eval.Callable {
      for _, binding := range bindings {
          if binding.HasKey(k) {
              return binding.GetKey(k)
          }
      }
      for _, binding := range bindings {
          if binding.HasKey(ui.Default) {
              return binding.GetKey(ui.Default)
          }
      }
      return nil
  }
  \<close>
  \<open>indexLoop\<close> is one of the two loops, falling through with \<open>None\<close>.
\<close>

fun indexLoop :: "Key \<Rightarrow> 'f bindingMap list \<Rightarrow> 'f option" where
  "indexLoop k [] = None"
| "indexLoop k (binding # bindings) =
     (if HasKey binding k then GetKey binding k else indexLoop k bindings)"

definition indexLayeredBindings :: "Ext \<Rightarrow> Key \<Rightarrow> 'f bindingMap list \<Rightarrow> 'f option" where
  "indexLayeredBindings ext k bindings =
     (case indexLoop k bindings of
        Some f \<Rightarrow> Some f
      | None \<Rightarrow> indexLoop (ui_Default ext) bindings)"

text \<open>
  The app seen from the binding code: \<^verbatim>\<open>a.Notify\<close>, whose notices are kept in the
  order they were made, and \<^verbatim>\<open>a.State()\<close>.

  A handler is an \<^verbatim>\<open>eval.Callable\<close> run by \<^verbatim>\<open>frame.Call\<close>. It may do anything to
  the app and ends with an error or without. An error has a cause
  (\<^verbatim>\<open>eval.Cause(err)\<close>), which is a \<^verbatim>\<open>cliutil.ActionError\<close> carrying an action or
  something else, and a message (\<^verbatim>\<open>err.Error()\<close>). The handler's output reaches the
  app as notices through the port's relaying goroutines, which \<^verbatim>\<open>cleanup\<close> waits for
  as \<^verbatim>\<open>callBinding\<close> returns: \<open>ranApp\<close> is the app when \<^verbatim>\<open>Call\<close> returns, and
  \<open>ranLate\<close> the notices relayed after \<^verbatim>\<open>callBinding\<close>'s own.
  \<^verbatim>\<open>
  func callBinding(nt notifier, ev *eval.Evaler, f eval.Callable) clitypes.HandlerAction {
      notifyPort, cleanup := makeNotifyPort(nt.Notify)
      defer cleanup()
      ports := []*eval.Port{eval.DevNullClosedChan, notifyPort, notifyPort}
      frame := eval.NewTopFrame(ev, bindingSource, ports)
      err := frame.Call(f, nil, eval.NoOpts)
      if err != nil {
          if action, ok := eval.Cause(err).(cliutil.ActionError); ok {
              return clitypes.HandlerAction(action)
          }
          nt.Notify("[binding error] " + err.Error())
      }
      return clitypes.NoAction
  }
  \<close>
\<close>

record 'm app =
  notified :: "string list"
  appState :: "'m RawState"

definition Notify :: "string \<Rightarrow> 'm app \<Rightarrow> 'm app" where
  "Notify note a = a\<lparr>notified := notified a @ [note]\<rparr>"

datatype cause = ActionError HandlerAction | OtherCause

record error =
  Cause :: cause
  Error :: string

record 'a Ran =
  ranApp :: 'a
  ranErr :: "error option"
  ranLate :: "string list"

type_synonym 'a Callable = "'a \<Rightarrow> 'a Ran"

definition cleanup :: "string list \<Rightarrow> 'm app \<Rightarrow> 'm app" where
  "cleanup late a = foldl (\<lambda>a note. Notify note a) a late"

definition callBinding :: "'m app \<Rightarrow> 'm app Callable \<Rightarrow> HandlerAction \<times> 'm app" where
  "callBinding nt f =
     (let r = f nt; nt1 = ranApp r
      in case ranErr r of
           Some err \<Rightarrow>
             (case Cause err of
                ActionError action \<Rightarrow> (action, cleanup (ranLate r) nt1)
              | OtherCause \<Rightarrow>
                  (NoAction,
                   cleanup (ranLate r) (Notify (''[binding error] '' @ Error err) nt1)))
         | None \<Rightarrow> (NoAction, cleanup (ranLate r) nt1))"

text \<open>
  \<^verbatim>\<open>
  func keyHandlerFromBindings(a app, ev *eval.Evaler, bs ...*bindingMap) func(ui.Key) clitypes.HandlerAction {
      return func(k ui.Key) clitypes.HandlerAction {
          f := indexLayeredBindings(k, bs...)
          if f == nil {
              a.Notify("Unbound: " + k.String())
              return clitypes.NoAction
          }
          a.State().SetBindingKey(k)
          return callBinding(a, ev, f)
      }
  }
  \<close>
\<close>

definition keyHandlerFromBindings ::
  "Ext \<Rightarrow> 'm app Callable bindingMap list \<Rightarrow> Key \<Rightarrow> 'm app \<Rightarrow> HandlerAction \<times> 'm app" where
  "keyHandlerFromBindings ext bs k a =
     (case indexLayeredBindings ext k bs of
        None \<Rightarrow> (NoAction, Notify (''Unbound: '' @ key_String ext k) a)
      | Some f \<Rightarrow> callBinding (a\<lparr>appState := SetBindingKey k (appState a)\<rparr>) f)"

section \<open>Sequences of state accesses\<close>

text \<open>
  Producers add notices and the redraw pops them, each under the state's mutex, so a
  run of the editor reaches the state as a sequence of such steps. \<open>runSteps\<close> collects
  the notices that the pops of a sequence hand to the renderer.
\<close>

datatype step = AddNoteStep string | PopForRedrawStep

fun runSteps :: "step list \<Rightarrow> 'm RawState \<Rightarrow> string list \<times> 'm RawState" where
  "runSteps [] s = ([], s)"
| "runSteps (AddNoteStep note # rest) s = runSteps rest (AddNote note s)"
| "runSteps (PopForRedrawStep # rest) s =
     (let (raw, s') = PopForRedraw s;
          (shown, s'') = runSteps rest s'
      in (Notes raw @ shown, s''))"

fun addedNotes :: "step list \<Rightarrow> string list" where
  "addedNotes [] = []"
| "addedNotes (AddNoteStep note # rest) = note # addedNotes rest"
| "addedNotes (PopForRedrawStep # rest) = addedNotes rest"

section \<open>Values for the examples\<close>

text \<open>
  An editor state, handlers and external parameters to run the definitions on: a
  handler that succeeds silently, one that fails with a message, one that requests an
  action; a key printed as its rune's character; the graphic runes of ASCII; a binding
  table with only a default entry and one that binds the key \<open>a\<close>.
\<close>

definition emptyState :: "unit RawState" where
  "emptyState =
     \<lparr>Mode = nilMode, Code = [], Dot = 0, Pending = None, Notes = [],
      BindingKey = \<lparr>Rune = 0, Mod = 0\<rparr>\<rparr>"

definition emptyApp :: "unit app" where
  "emptyApp = \<lparr>notified = [], appState = emptyState\<rparr>"

definition okHandler :: "unit app Callable" where
  "okHandler a = \<lparr>ranApp = a, ranErr = None, ranLate = []\<rparr>"

definition failingHandler :: "unit app Callable" where
  "failingHandler a =
     \<lparr>ranApp = a, ranErr = Some \<lparr>Cause = OtherCause, Error = ''bad''\<rparr>, ranLate = []\<rparr>"

definition actionHandler :: "unit app Callable" where
  "actionHandler a =
     \<lparr>ranApp = a, ranErr = Some \<lparr>Cause = ActionError 1, Error = ''action''\<rparr>, ranLate = []\<rparr>"

definition asciiExt :: Ext where
  "asciiExt =
     \<lparr>ui_Default = \<lparr>Rune = - 1, Mod = 0\<rparr>, ui_Backspace = 0x7F,
      key_String = (\<lambda>k. [char_of (Rune k)]),
      unicode_IsGraphic = (\<lambda>r. 0x20 \<le> r \<and> r < 0x7F)\<rparr>"

definition defaultTable :: "unit app Callable bindingMap" where
  "defaultTable = [ui_Default asciiExt \<mapsto> okHandler]"

definition letterTable :: "unit app Callable bindingMap" where
  "letterTable = [K 0x61 \<mapsto> actionHandler]"

text \<open>
  For the renderer: a code buffer of five lines with the dot on line 3, a code buffer of
  one line, and a mode with a given mode line that lists as many lines as it is given.
\<close>

definition exampleCode :: "nat Buffer" where
  "exampleCode = \<lparr>Lines = [0, 1, 2, 3, 4], DotLine = 3\<rparr>"

definition shortCode :: "nat Buffer" where
  "shortCode = \<lparr>Lines = [0], DotLine = 0\<rparr>"

definition exampleMode :: "nat list \<Rightarrow> nat ModeView" where
  "exampleMode ls =
     \<lparr>modeLine = Some \<lparr>Lines = ls, DotLine = 0\<rparr>,
      lister = Some (\<lambda>h. Some \<lparr>Lines = replicate (nat h) 20, DotLine = 0\<rparr>),
      redrawModeLineAfterList = False,
      modeLineAfterList = None\<rparr>"

text \<open>
  For the listing mode, after the tests of the package: an item producer with one item
  for the filter \<open>xy\<close> and ten items otherwise, whose items leave a note with their
  index when accepted; values for the keys of the built-in binding; a listing state
  with filtering on; and a mode that accepts automatically.
\<close>

definition notingItems :: "int \<Rightarrow> unit Items" where
  "notingItems n =
     \<lparr>Len = n, ShowCountLines = (\<lambda>i. 1),
      Accept = (\<lambda>i st. AddNote (''accepted '' @ [char_of (0x30 + i)]) st)\<rparr>"

definition exampleGetter :: "string \<Rightarrow> unit Items" where
  "exampleGetter f = (if f = ''xy'' then notingItems 1 else notingItems 10)"

definition exampleKeys :: KeyNames where
  "exampleKeys = \<lparr>ui_Down = - 14, ui_Up = - 13, ui_Tab = 0x09, ui_Ctrl = 4, ui_Shift = 1\<rparr>"

definition exampleListing :: "string \<Rightarrow> unit State" where
  "exampleListing f =
     \<lparr>itemsGetter = exampleGetter, selectLast = False, filtering = True, filter_text = f,
      items = exampleGetter f, first = 0, selected = 0\<rparr>"

definition exampleListingMode :: "string \<Rightarrow> unit listing_Mode" where
  "exampleListingMode f =
     \<lparr>config = \<lparr>Name = ''LISTING'', ItemsGetter = exampleGetter, StartFilter = True,
                AutoAccept = True, SelectLast = False\<rparr>,
      state = exampleListing f\<rparr>"

text \<open>
  The mode of \<^verbatim>\<open>TestHandleEvent_DefaultBinding\<close>: ten items, no filtering, no
  \<^verbatim>\<open>KeyHandler\<close>; here with a given item selected.
\<close>

definition fakeListingMode :: "int \<Rightarrow> unit listing_Mode" where
  "fakeListingMode i =
     \<lparr>config = \<lparr>Name = [], ItemsGetter = (\<lambda>f. fakeItems 10), StartFilter = False,
                AutoAccept = False, SelectLast = False\<rparr>,
      state = \<lparr>itemsGetter = (\<lambda>f. fakeItems 10), selectLast = False, filtering = False,
               filter_text = [], items = fakeItems 10, first = 0, selected = i\<rparr>\<rparr>"

section \<open>Properties\<close>

subsection \<open>The renderer's window helper\<close>

lemma wrap_id: "- (2 ^ 63) \<le> x \<Longrightarrow> x < 2 ^ 63 \<Longrightarrow> wrap x = x"
  by (simp add: wrap_def)

lemma sdiv2_nonneg: "0 \<le> (k::int) \<Longrightarrow> k sdiv 2 = k div 2"
  by (simp add: signed_divide_int_def sgn_if)

text \<open>
  Where the sum \<open>low + size\<close> stays within the 64-bit range nothing wraps, and the
  function is the one its text reads as.
\<close>

lemma clicore_findWindow_plain:
  assumes "0 \<le> i" and "i < n" and "0 < sz" and "n < 2 ^ 63" and "sz < 2 ^ 63"
    and "i - sz div 2 + sz < 2 ^ 63"
  shows "clicore_findWindow i n sz =
     (if i - sz div 2 < 0 then (0, sz)
      else if i - sz div 2 + sz > n then (n - sz, n)
      else (i - sz div 2, i - sz div 2 + sz))"
proof -
  have h: "sz sdiv 2 = sz div 2"
    using assms(3) by (simp add: sdiv2_nonneg)
  have d: "0 \<le> sz div 2" "sz div 2 < sz" using assms(3) by simp_all
  have l: "wrap (i - sz div 2) = i - sz div 2"
    by (rule wrap_id) (use assms d in simp_all)
  have hi: "0 \<le> i - sz div 2 \<Longrightarrow> wrap (i - sz div 2 + sz) = i - sz div 2 + sz"
    by (rule wrap_id) (use assms d in simp_all)
  have ns: "wrap (n - sz) = n - sz"
    by (rule wrap_id) (use assms d in simp_all)
  show ?thesis
    unfolding clicore_findWindow_def Let_def h l
    using hi ns by auto
qed

text \<open>
  Claim C10, as amended. For \<open>0 \<le> i < n\<close> and \<open>0 < size \<le> n\<close>, with \<open>n\<close> a value of
  Go's \<^verbatim>\<open>int\<close> and the sum \<open>low + size = i - size / 2 + size\<close> within its range (it
  is whenever \<open>n\<close> is at most \<open>2 ^ 62\<close>), the renderer's \<open>findWindow i n size\<close>
  returns \<open>(low, high)\<close> with \<open>0 \<le> low \<le> i < high \<le> n\<close> and \<open>high - low = size\<close>:
  the window has exactly \<open>size\<close> lines, lies within the buffer and contains the cursor
  line.
\<close>

theorem clicore_findWindow_bounds:
  assumes "0 \<le> i" and "i < n" and "0 < sz" and "sz \<le> n"
    and "n < 2 ^ 63" and "i - sz div 2 + sz < 2 ^ 63"
  shows "0 \<le> fst (clicore_findWindow i n sz)
       \<and> fst (clicore_findWindow i n sz) \<le> i
       \<and> i < snd (clicore_findWindow i n sz)
       \<and> snd (clicore_findWindow i n sz) \<le> n
       \<and> snd (clicore_findWindow i n sz) - fst (clicore_findWindow i n sz) = sz"
proof -
  have d: "0 \<le> sz div 2" "sz div 2 < sz" using assms(3) by simp_all
  have "clicore_findWindow i n sz =
     (if i - sz div 2 < 0 then (0, sz)
      else if i - sz div 2 + sz > n then (n - sz, n)
      else (i - sz div 2, i - sz div 2 + sz))"
    by (rule clicore_findWindow_plain) (use assms in simp_all)
  then show ?thesis using assms d by auto
qed

theorem clicore_findWindow_bounds_witness:
  "(0::int) \<le> 7 \<and> (7::int) < 10 \<and> (0::int) < 4 \<and> (4::int) \<le> 10 \<and> (10::int) < 2 ^ 63
   \<and> (7::int) - 4 div 2 + 4 < 2 ^ 63
   \<and> clicore_findWindow 7 10 4 = (5, 9)
   \<and> 0 \<le> fst (clicore_findWindow 7 10 4)
   \<and> fst (clicore_findWindow 7 10 4) \<le> 7
   \<and> 7 < snd (clicore_findWindow 7 10 4)
   \<and> snd (clicore_findWindow 7 10 4) \<le> 10
   \<and> snd (clicore_findWindow 7 10 4) - fst (clicore_findWindow 7 10 4) = 4"
proof -
  have v: "clicore_findWindow 7 10 4 = (5, 9)"
    by (simp add: clicore_findWindow_def Let_def signed_divide_int_def wrap_def)
  from clicore_findWindow_bounds [of 7 10 4] v show ?thesis
    by simp
qed

text \<open>
  Claim C10 as stated, for every \<open>0 \<le> i < n\<close> and \<open>0 < size \<le> n\<close>, fails at the top of
  the 64-bit range: for \<open>i = 2 ^ 63 - 2\<close>, \<open>n = 2 ^ 63 - 1\<close> and \<open>size = 4\<close> the sum
  \<open>low + size\<close> wraps around to \<open>- 2 ^ 63\<close>, neither test fires, and the pair returned,
  \<open>(2 ^ 63 - 4, - 2 ^ 63)\<close>, does not have \<open>i < high\<close>.
\<close>

theorem clicore_findWindow_bounds_counterexample:
  "(0::int) \<le> 2 ^ 63 - 2 \<and> (2 ^ 63 - 2 :: int) < 2 ^ 63 - 1 \<and> (0::int) < 4
   \<and> (4::int) \<le> 2 ^ 63 - 1
   \<and> clicore_findWindow (2 ^ 63 - 2) (2 ^ 63 - 1) 4 = (2 ^ 63 - 4, - (2 ^ 63))
   \<and> \<not> (2 ^ 63 - 2 < snd (clicore_findWindow (2 ^ 63 - 2) (2 ^ 63 - 1) 4))"
  by (simp add: clicore_findWindow_def wrap_def Let_def signed_divide_int_def)

subsection \<open>The listing viewport\<close>






text \<open>
  Claim C7. If the selected item's own line count cannot fit in the height budget
  (\<open>maxHeight\<close> is smaller than the item's line count; the code takes the same branch
  when it is equal), \<open>findWindow\<close> returns \<open>(selected, 0)\<close> whatever \<open>oldFirst\<close> is:
  the window is anchored at the selected item's own start.
\<close>

theorem findWindow_selected_does_not_fit:
  "maxHeight \<le> ShowCountLines its sel \<Longrightarrow> findWindow its oldFirst sel maxHeight = (sel, 0)"
  by (simp add: findWindow_def)

theorem findWindow_selected_does_not_fit_witness:
  "(2::int) \<le> ShowCountLines \<lparr>Len = 5, ShowCountLines = (\<lambda>i. 3), Accept = (\<lambda>i st. st)\<rparr> 4
   \<and> findWindow \<lparr>Len = 5, ShowCountLines = (\<lambda>i. 3), Accept = (\<lambda>i st. st)\<rparr> 1 4 2 = (4, 0)"
proof -
  have h: "(2::int) \<le> ShowCountLines \<lparr>Len = 5, ShowCountLines = (\<lambda>i. 3), Accept = (\<lambda>i st. st)\<rparr> 4"
    by simp
  from findWindow_selected_does_not_fit [OF h, of 1] h show ?thesis
    by simp
qed










subsection \<open>The shared editor state\<close>

lemma runSteps_conserves:
  "fst (runSteps steps s) @ Notes (snd (runSteps steps s)) = Notes s @ addedNotes steps"
proof (induction steps arbitrary: s)
  case Nil
  show ?case by simp
next
  case (Cons x steps)
  show ?case
  proof (cases x rule: step.exhaust)
    case (AddNoteStep n)
    then show ?thesis using Cons.IH [of "AddNote n s"] by (simp add: AddNote_def)
  next
    case PopForRedrawStep
    then show ?thesis using Cons.IH [of "s\<lparr>Notes := []\<rparr>"]
      by (simp add: PopForRedraw_def case_prod_unfold Let_def)
  qed
qed

text \<open>
  Claim C8. \<open>PopForRedraw\<close> returns a copy of the whole state and leaves the state
  with its notices cleared, in one step. Called twice in a row it returns no notice the
  second time, and the second call changes nothing. No notice is lost or duplicated: the
  two calls together return the notices of the state once, and over any sequence of
  \<open>AddNote\<close> and \<open>PopForRedraw\<close> steps the notices handed out by the pops, followed by
  those still in the state, are the notices of the initial state followed by the added
  ones, in order.
\<close>

theorem PopForRedraw_read_and_clear:
  "fst (PopForRedraw s) = s
   \<and> snd (PopForRedraw s) = s\<lparr>Notes := []\<rparr>
   \<and> Notes (fst (PopForRedraw (snd (PopForRedraw s)))) = []
   \<and> snd (PopForRedraw (snd (PopForRedraw s))) = snd (PopForRedraw s)
   \<and> Notes (fst (PopForRedraw s)) @ Notes (fst (PopForRedraw (snd (PopForRedraw s)))) = Notes s
   \<and> fst (runSteps steps s) @ Notes (snd (runSteps steps s)) = Notes s @ addedNotes steps"
  using runSteps_conserves [of steps s] by (simp add: PopForRedraw_def)

text \<open>
  Claim C9. \<open>Finalize\<close> leaves the shared state as it is, every field of it, and the
  snapshot it returns has its dot at the end of the code (the code's length in bytes)
  and \<open>dummyMode\<close>, the placeholder, as its mode; code and notices are those of the
  state, and there is no pending code and no binding key.
\<close>

theorem Finalize_read_only:
  "snd (Finalize s) = s
   \<and> Dot (fst (Finalize s)) = int (length (Code s))
   \<and> Mode (fst (Finalize s)) = dummyMode
   \<and> Code (fst (Finalize s)) = Code s
   \<and> Notes (fst (Finalize s)) = Notes s
   \<and> Pending (fst (Finalize s)) = None
   \<and> BindingKey (fst (Finalize s)) = \<lparr>Rune = 0, Mod = 0\<rparr>"
  by (simp add: Finalize_def)

subsection \<open>Key bindings\<close>

lemma notified_cleanup: "notified (cleanup late a) = notified a @ late"
  unfolding cleanup_def
  by (induction late arbitrary: a) (simp_all add: Notify_def)

lemma appState_cleanup: "appState (cleanup late a) = appState a"
  unfolding cleanup_def
  by (induction late arbitrary: a) (simp_all add: Notify_def)

text \<open>
  Claim C2. \<open>callBinding\<close> returns an action and nothing else: the error of a handler
  never leaves it. A handler that ends without error gives \<open>NoAction\<close>. A handler whose
  error has an \<open>ActionError\<close> as its cause gives that action, and \<open>callBinding\<close> adds
  no notice of its own: the app's notices are those of the handler's run. Any other
  error gives \<open>NoAction\<close> and one notice "[binding error] " followed by the error's
  message. In every case the editor state is the one the handler left.
\<close>

theorem callBinding_absorbs_failures:
  "(ranErr (f nt) = None \<longrightarrow>
      fst (callBinding nt f) = NoAction
      \<and> notified (snd (callBinding nt f)) = notified (ranApp (f nt)) @ ranLate (f nt))
   \<and> (\<forall>e action. ranErr (f nt) = Some e \<and> Cause e = ActionError action \<longrightarrow>
      fst (callBinding nt f) = action
      \<and> notified (snd (callBinding nt f)) = notified (ranApp (f nt)) @ ranLate (f nt))
   \<and> (\<forall>e. ranErr (f nt) = Some e \<and> Cause e = OtherCause \<longrightarrow>
      fst (callBinding nt f) = NoAction
      \<and> notified (snd (callBinding nt f))
          = notified (ranApp (f nt)) @ [''[binding error] '' @ Error e] @ ranLate (f nt))
   \<and> appState (snd (callBinding nt f)) = appState (ranApp (f nt))"
  by (auto simp: callBinding_def Let_def notified_cleanup appState_cleanup Notify_def
      split: option.splits cause.splits)

theorem callBinding_absorbs_failures_witness:
  "ranErr (okHandler emptyApp) = None
   \<and> fst (callBinding emptyApp okHandler) = NoAction
   \<and> notified (snd (callBinding emptyApp okHandler)) = []
   \<and> ranErr (actionHandler emptyApp) = Some \<lparr>Cause = ActionError 1, Error = ''action''\<rparr>
   \<and> fst (callBinding emptyApp actionHandler) = 1
   \<and> notified (snd (callBinding emptyApp actionHandler)) = []
   \<and> ranErr (failingHandler emptyApp) = Some \<lparr>Cause = OtherCause, Error = ''bad''\<rparr>
   \<and> fst (callBinding emptyApp failingHandler) = NoAction
   \<and> notified (snd (callBinding emptyApp failingHandler)) = [''[binding error] bad'']"
  using callBinding_absorbs_failures [of okHandler emptyApp]
    callBinding_absorbs_failures [of actionHandler emptyApp]
    callBinding_absorbs_failures [of failingHandler emptyApp]
  by (simp add: okHandler_def actionHandler_def failingHandler_def emptyApp_def)

lemma indexLoop_first:
  "j < length bs \<Longrightarrow> HasKey (bs ! j) k \<Longrightarrow> (\<forall>i < j. \<not> HasKey (bs ! i) k)
   \<Longrightarrow> indexLoop k bs = GetKey (bs ! j) k"
proof (induction bs arbitrary: j)
  case Nil
  then show ?case by simp
next
  case (Cons b bs)
  show ?case
  proof (cases j)
    case 0
    then show ?thesis using Cons.prems by simp
  next
    case (Suc j')
    have nb: "\<not> HasKey b k" using Cons.prems(3) Suc by auto
    have "\<forall>i < j'. \<not> HasKey (bs ! i) k" using Cons.prems(3) Suc by auto
    then have "indexLoop k bs = GetKey (bs ! j') k"
      using Cons.IH [of j'] Cons.prems(1,2) Suc by simp
    then show ?thesis using nb Suc by simp
  qed
qed

lemma indexLoop_none: "(\<forall>b \<in> set bs. \<not> HasKey b k) \<Longrightarrow> indexLoop k bs = None"
  by (induction bs) simp_all

lemma HasKey_GetKey: "HasKey b k \<Longrightarrow> \<exists>f. GetKey b k = Some f"
  by (simp add: HasKey_def GetKey_def split: option.splits)

text \<open>
  Claim C3. Resolution takes two passes over the tables. The first table, in order,
  that has the key supplies the handler, whatever default entries the tables before it
  have. Only when no table has the key, the first table, in order, that has a default
  entry supplies the handler. When no table has the key or a default entry, there is no
  handler: the key handler makes the notice "Unbound: " followed by the key, returns
  \<open>NoAction\<close> and does nothing else. When a handler is found, the key handler records
  the key as binding key and calls the handler.
\<close>

theorem layered_binding_resolution:
  "(\<forall>j < length bs. HasKey (bs ! j) k \<and> (\<forall>i < j. \<not> HasKey (bs ! i) k) \<longrightarrow>
       indexLayeredBindings ext k bs = GetKey (bs ! j) k)
   \<and> (\<forall>j < length bs. (\<forall>b \<in> set bs. \<not> HasKey b k) \<and> HasKey (bs ! j) (ui_Default ext)
         \<and> (\<forall>i < j. \<not> HasKey (bs ! i) (ui_Default ext)) \<longrightarrow>
       indexLayeredBindings ext k bs = GetKey (bs ! j) (ui_Default ext))
   \<and> ((\<forall>b \<in> set bs. \<not> HasKey b k \<and> \<not> HasKey b (ui_Default ext)) \<longrightarrow>
       indexLayeredBindings ext k bs = None
       \<and> keyHandlerFromBindings ext bs k a
           = (NoAction, Notify (''Unbound: '' @ key_String ext k) a))
   \<and> (\<forall>f. indexLayeredBindings ext k bs = Some f \<longrightarrow>
       keyHandlerFromBindings ext bs k a
         = callBinding (a\<lparr>appState := SetBindingKey k (appState a)\<rparr>) f)"
proof (intro conjI allI impI)
  fix j assume j: "j < length bs" and h: "HasKey (bs ! j) k \<and> (\<forall>i < j. \<not> HasKey (bs ! i) k)"
  have "indexLoop k bs = GetKey (bs ! j) k" using indexLoop_first [OF j] h by blast
  moreover obtain f where "GetKey (bs ! j) k = Some f" using HasKey_GetKey h by blast
  ultimately show "indexLayeredBindings ext k bs = GetKey (bs ! j) k"
    by (simp add: indexLayeredBindings_def)
next
  fix j assume j: "j < length bs"
    and h: "(\<forall>b \<in> set bs. \<not> HasKey b k) \<and> HasKey (bs ! j) (ui_Default ext)
         \<and> (\<forall>i < j. \<not> HasKey (bs ! i) (ui_Default ext))"
  have "indexLoop k bs = None" using indexLoop_none h by blast
  moreover have "indexLoop (ui_Default ext) bs = GetKey (bs ! j) (ui_Default ext)"
    using indexLoop_first [OF j] h by blast
  ultimately show "indexLayeredBindings ext k bs = GetKey (bs ! j) (ui_Default ext)"
    by (simp add: indexLayeredBindings_def)
next
  assume h: "\<forall>b \<in> set bs. \<not> HasKey b k \<and> \<not> HasKey b (ui_Default ext)"
  have "indexLoop k bs = None" "indexLoop (ui_Default ext) bs = None"
    using indexLoop_none h by blast+
  then show "indexLayeredBindings ext k bs = None"
    by (simp add: indexLayeredBindings_def)
  then show "keyHandlerFromBindings ext bs k a
           = (NoAction, Notify (''Unbound: '' @ key_String ext k) a)"
    by (simp add: keyHandlerFromBindings_def)
next
  fix f assume "indexLayeredBindings ext k bs = Some f"
  then show "keyHandlerFromBindings ext bs k a
         = callBinding (a\<lparr>appState := SetBindingKey k (appState a)\<rparr>) f"
    by (simp add: keyHandlerFromBindings_def)
qed

lemma example_tables: "HasKey letterTable (K 0x61)" "\<not> HasKey defaultTable (K 0x61)"
  "\<not> HasKey letterTable (K 0x62)" "\<not> HasKey defaultTable (K 0x62)"
  "HasKey defaultTable (ui_Default asciiExt)" "\<not> HasKey letterTable (ui_Default asciiExt)"
  by (simp_all add: HasKey_def letterTable_def defaultTable_def K_def asciiExt_def)

theorem layered_binding_resolution_witness:
  "indexLayeredBindings asciiExt (K 0x61) [defaultTable, letterTable] = Some actionHandler
   \<and> indexLayeredBindings asciiExt (K 0x62) [defaultTable, letterTable] = Some okHandler
   \<and> indexLayeredBindings asciiExt (K 0x62) [letterTable] = None
   \<and> keyHandlerFromBindings asciiExt [letterTable] (K 0x62) emptyApp
       = (NoAction, emptyApp\<lparr>notified := [''Unbound: b'']\<rparr>)
   \<and> keyHandlerFromBindings asciiExt [defaultTable, letterTable] (K 0x61) emptyApp
       = (1, emptyApp\<lparr>appState := emptyState\<lparr>BindingKey := K 0x61\<rparr>\<rparr>)"
proof -
  have a: "indexLayeredBindings asciiExt (K 0x61) [defaultTable, letterTable] = Some actionHandler"
    using layered_binding_resolution [of "[defaultTable, letterTable]" "K 0x61" asciiExt emptyApp] example_tables
    by (simp add: All_less_Suc numeral_2_eq_2 GetKey_def letterTable_def)
  have b: "indexLayeredBindings asciiExt (K 0x62) [defaultTable, letterTable] = Some okHandler"
    using layered_binding_resolution [of "[defaultTable, letterTable]" "K 0x62" asciiExt emptyApp] example_tables
    by (simp add: All_less_Suc numeral_2_eq_2 GetKey_def defaultTable_def)
  have c: "indexLayeredBindings asciiExt (K 0x62) [letterTable] = None
     \<and> keyHandlerFromBindings asciiExt [letterTable] (K 0x62) emptyApp
       = (NoAction, emptyApp\<lparr>notified := [''Unbound: b'']\<rparr>)"
    using layered_binding_resolution [of "[letterTable]" "K 0x62" asciiExt emptyApp] example_tables
    by (simp add: Notify_def emptyApp_def asciiExt_def K_def char_of_eq_iff)
  have d: "keyHandlerFromBindings asciiExt [defaultTable, letterTable] (K 0x61) emptyApp
       = (1, emptyApp\<lparr>appState := emptyState\<lparr>BindingKey := K 0x61\<rparr>\<rparr>)"
    using layered_binding_resolution [of "[defaultTable, letterTable]" "K 0x61" asciiExt emptyApp] a
    by (simp add: callBinding_def actionHandler_def cleanup_def SetBindingKey_def emptyApp_def)
  from a b c d show ?thesis by simp
qed

subsection \<open>The renderer's height allocation\<close>

lemma BuffersHeight2: "BuffersHeight [Some c, m] = int (length (Lines c)) + BuffersHeight [m]"
  by (simp add: BuffersHeight_def)

lemma TrimToLines_inside:
  "0 \<le> low \<Longrightarrow> low \<le> high \<Longrightarrow> high \<le> int (length (Lines b)) \<Longrightarrow>
   TrimToLines b low high
     = Inr \<lparr>Lines = take (nat (high - low)) (drop (nat low) (Lines b)), DotLine = DotLine b - low\<rparr>"
  by (simp add: TrimToLines_def)

lemma TrimToLines_outside:
  "low < 0 \<or> int (length (Lines b)) < high \<Longrightarrow> TrimToLines b low high = Inl SliceBoundsOutOfRange"
  by (auto simp add: TrimToLines_def)

lemma clicore_findWindow_centred:
  assumes "0 \<le> i" and "i < n" and "0 < sz" and "sz \<le> n" and "n < 2 ^ 62"
  shows "clicore_findWindow i n sz =
     (if i < sz div 2 then (0, sz)
      else if n < i - sz div 2 + sz then (n - sz, n)
      else (i - sz div 2, i - sz div 2 + sz))"
proof -
  have d: "0 \<le> sz div 2" "sz div 2 < sz" using assms(3) by simp_all
  have "clicore_findWindow i n sz =
     (if i - sz div 2 < 0 then (0, sz)
      else if i - sz div 2 + sz > n then (n - sz, n)
      else (i - sz div 2, i - sz div 2 + sz))"
    by (rule clicore_findWindow_plain) (use assms d in simp_all)
  then show ?thesis by auto
qed

lemma clicore_findWindow_too_tall:
  assumes "0 \<le> i" and "i < n" and "n < sz" and "sz < 2 ^ 62"
  shows "fst (clicore_findWindow i n sz) < 0 \<or> n < snd (clicore_findWindow i n sz)"
proof -
  have d: "0 \<le> sz div 2" "sz div 2 < sz" using assms by simp_all
  have "clicore_findWindow i n sz =
     (if i - sz div 2 < 0 then (0, sz)
      else if i - sz div 2 + sz > n then (n - sz, n)
      else (i - sz div 2, i - sz div 2 + sz))"
    by (rule clicore_findWindow_plain) (use assms d in simp_all)
  then show ?thesis using assms d by auto
qed

text \<open>
  The four cases of the \<^verbatim>\<open>switch\<close>, for a code buffer whose dot is on one of its
  lines. With \<open>hc\<close> the lines of the code buffer and \<open>hm\<close> those of the mode line:
  if both fit, they are kept whole and the height left is the listing's; else if the
  mode line fits with a line to spare, the code is trimmed to a window of
  \<open>maxHeight - hm\<close> lines within the buffer that holds the dot's line, in its middle
  unless the window touches an end of the buffer; else if \<open>maxHeight\<close> is at least 2,
  the mode line is trimmed to its first line and the code, provided it has at least
  \<open>maxHeight - 1\<close> lines, to such a window of \<open>maxHeight - 1\<close> lines; otherwise the
  mode line is dropped and the code trimmed to the dot's line.
\<close>

lemma allocate_fits:
  assumes "int (length (Lines bufCode)) + BuffersHeight [bufMode] \<le> maxHeight"
  shows "allocate maxHeight bufCode bufMode
       = Inr (bufCode, bufMode, maxHeight - (int (length (Lines bufCode)) + BuffersHeight [bufMode]))"
  using assms by (simp add: allocate_def BuffersHeight2)

lemma allocate_window:
  assumes "maxHeight < int (length (Lines bufCode)) + BuffersHeight [bufMode]"
    and "BuffersHeight [bufMode] + 1 \<le> maxHeight"
    and "0 \<le> DotLine bufCode" and "DotLine bufCode < int (length (Lines bufCode))"
    and "int (length (Lines bufCode)) < 2 ^ 62"
    and "clicore_findWindow (DotLine bufCode) (int (length (Lines bufCode)))
            (maxHeight - BuffersHeight [bufMode]) = (low, high)"
  shows "allocate maxHeight bufCode bufMode
       = Inr (\<lparr>Lines = take (nat (maxHeight - BuffersHeight [bufMode])) (drop (nat low) (Lines bufCode)),
               DotLine = DotLine bufCode - low\<rparr>, bufMode, 0)
         \<and> 0 \<le> low \<and> low \<le> DotLine bufCode \<and> DotLine bufCode < high
         \<and> high \<le> int (length (Lines bufCode)) \<and> high - low = maxHeight - BuffersHeight [bufMode]
         \<and> (DotLine bufCode - low = (maxHeight - BuffersHeight [bufMode]) div 2
              \<or> low = 0 \<and> DotLine bufCode < (maxHeight - BuffersHeight [bufMode]) div 2
              \<or> high = int (length (Lines bufCode))
                  \<and> (maxHeight - BuffersHeight [bufMode]) div 2 < DotLine bufCode - low)"
proof -
  define hc where "hc = int (length (Lines bufCode))"
  define hm where "hm = BuffersHeight [bufMode]"
  define dot where "dot = DotLine bufCode"
  define sz where "sz = maxHeight - hm"
  have sz: "0 < sz" "sz \<le> hc" using assms(1,2) by (simp_all add: sz_def hc_def hm_def)
  have d: "0 \<le> sz div 2" "sz div 2 < sz" using sz by simp_all
  have w: "(low, high) = (if dot < sz div 2 then (0, sz)
      else if hc < dot - sz div 2 + sz then (hc - sz, hc)
      else (dot - sz div 2, dot - sz div 2 + sz))"
    using clicore_findWindow_centred [of dot hc sz] assms(3-6) sz
    by (simp add: hc_def hm_def dot_def sz_def)
  have b: "0 \<le> low \<and> low \<le> dot \<and> dot < high \<and> high \<le> hc \<and> high - low = sz"
    using w sz d assms(3,4) by (auto simp add: hc_def dot_def split: if_splits)
  have c: "dot - low = sz div 2 \<or> low = 0 \<and> dot < sz div 2 \<or> high = hc \<and> sz div 2 < dot - low"
    using w sz d by (auto split: if_splits)
  have t: "TrimToLines bufCode low high
     = Inr \<lparr>Lines = take (nat sz) (drop (nat low) (Lines bufCode)), DotLine = dot - low\<rparr>"
    using b TrimToLines_inside [of low high bufCode] by (simp add: hc_def dot_def)
  have "allocate maxHeight bufCode bufMode
       = Inr (\<lparr>Lines = take (nat sz) (drop (nat low) (Lines bufCode)), DotLine = dot - low\<rparr>, bufMode, 0)"
    using assms(1,2,6) t
    by (simp add: allocate_def BuffersHeight2 Let_def hm_def sz_def)
  then show ?thesis using b c by (simp add: hc_def hm_def dot_def sz_def)
qed


lemma allocate_cropped:
  assumes "maxHeight < BuffersHeight [bufMode] + 1" and "2 \<le> maxHeight"
    and "maxHeight - 1 \<le> int (length (Lines bufCode))"
    and "0 \<le> DotLine bufCode" and "DotLine bufCode < int (length (Lines bufCode))"
    and "int (length (Lines bufCode)) < 2 ^ 62"
    and "clicore_findWindow (DotLine bufCode) (int (length (Lines bufCode))) (maxHeight - 1)
           = (low, high)"
  shows "\<exists>m. bufMode = Some m
         \<and> allocate maxHeight bufCode bufMode
           = Inr (\<lparr>Lines = take (nat (maxHeight - 1)) (drop (nat low) (Lines bufCode)),
                   DotLine = DotLine bufCode - low\<rparr>,
                 Some \<lparr>Lines = take 1 (Lines m), DotLine = DotLine m\<rparr>, 0)
         \<and> 0 \<le> low \<and> low \<le> DotLine bufCode \<and> DotLine bufCode < high
         \<and> high \<le> int (length (Lines bufCode)) \<and> high - low = maxHeight - 1
         \<and> (DotLine bufCode - low = (maxHeight - 1) div 2
              \<or> low = 0 \<and> DotLine bufCode < (maxHeight - 1) div 2
              \<or> high = int (length (Lines bufCode)) \<and> (maxHeight - 1) div 2 < DotLine bufCode - low)"
proof -
  define hc where "hc = int (length (Lines bufCode))"
  define dot where "dot = DotLine bufCode"
  define sz where "sz = maxHeight - 1"
  obtain m where m: "bufMode = Some m"
    using assms(1,2) by (cases bufMode) (simp_all add: BuffersHeight_def)
  have lm: "2 \<le> int (length (Lines m))"
    using assms(1,2) m by (simp add: BuffersHeight_def)
  have tm: "TrimToLines m 0 1 = Inr \<lparr>Lines = take 1 (Lines m), DotLine = DotLine m\<rparr>"
    using lm TrimToLines_inside [of 0 1 m] by simp
  have sz: "0 < sz" "sz \<le> hc" using assms(2,3) by (simp_all add: sz_def hc_def)
  have d: "0 \<le> sz div 2" "sz div 2 < sz" using sz by simp_all
  have w: "(low, high) = (if dot < sz div 2 then (0, sz)
      else if hc < dot - sz div 2 + sz then (hc - sz, hc)
      else (dot - sz div 2, dot - sz div 2 + sz))"
    using clicore_findWindow_centred [of dot hc sz] assms(4-7) sz
    by (simp add: hc_def dot_def sz_def)
  have b: "0 \<le> low \<and> low \<le> dot \<and> dot < high \<and> high \<le> hc \<and> high - low = sz"
    using w sz d assms(4,5) by (auto simp add: hc_def dot_def split: if_splits)
  have c: "dot - low = sz div 2 \<or> low = 0 \<and> dot < sz div 2 \<or> high = hc \<and> sz div 2 < dot - low"
    using w sz d by (auto split: if_splits)
  have t: "TrimToLines bufCode low high
     = Inr \<lparr>Lines = take (nat sz) (drop (nat low) (Lines bufCode)), DotLine = dot - low\<rparr>"
    using b TrimToLines_inside [of low high bufCode] by (simp add: hc_def dot_def)
  have nf: "\<not> int (length (Lines bufCode)) + BuffersHeight [bufMode] \<le> maxHeight"
    using assms(1,4,5) by linarith
  have "allocate maxHeight bufCode bufMode
       = Inr (\<lparr>Lines = take (nat sz) (drop (nat low) (Lines bufCode)), DotLine = dot - low\<rparr>,
              Some \<lparr>Lines = take 1 (Lines m), DotLine = DotLine m\<rparr>, 0)"
    using assms(1,2,7) nf t tm m
    by (simp add: allocate_def BuffersHeight2 Let_def sz_def)
  then show ?thesis using b c m by (simp add: hc_def dot_def sz_def)
qed

text \<open>
  In the third case nothing bounds the height left for the code, \<open>maxHeight - 1\<close>, by
  the lines of the code buffer (the second case has \<open>maxHeight - hm < hc\<close>): the
  mode line alone may be taller than \<open>maxHeight\<close>. \<^verbatim>\<open>findWindow\<close>, written for a
  size "which is smaller than \<^verbatim>\<open>n\<close>", then returns a window of \<open>maxHeight - 1\<close>
  lines that starts before the buffer or ends after it, and trimming to it fails.
\<close>

lemma allocate_past_buffer:
  assumes "maxHeight < BuffersHeight [bufMode] + 1" and "2 \<le> maxHeight"
    and "int (length (Lines bufCode)) < maxHeight - 1"
    and "0 \<le> DotLine bufCode" and "DotLine bufCode < int (length (Lines bufCode))"
    and "maxHeight < 2 ^ 62"
  shows "allocate maxHeight bufCode bufMode = Inl SliceBoundsOutOfRange"
proof -
  define hc where "hc = int (length (Lines bufCode))"
  define dot where "dot = DotLine bufCode"
  define sz where "sz = maxHeight - 1"
  obtain m where m: "bufMode = Some m"
    using assms(1,2) by (cases bufMode) (simp_all add: BuffersHeight_def)
  have lm: "2 \<le> int (length (Lines m))"
    using assms(1,2) m by (simp add: BuffersHeight_def)
  have tm: "TrimToLines m 0 1 = Inr \<lparr>Lines = take 1 (Lines m), DotLine = DotLine m\<rparr>"
    using lm TrimToLines_inside [of 0 1 m] by simp
  obtain low high where w: "clicore_findWindow dot hc sz = (low, high)"
    by (cases "clicore_findWindow dot hc sz")
  have "low < 0 \<or> hc < high"
    using clicore_findWindow_too_tall [of dot hc sz] assms(3-6) w
    by (simp add: hc_def dot_def sz_def)
  then have t: "TrimToLines bufCode low high = Inl SliceBoundsOutOfRange"
    using TrimToLines_outside [of low bufCode high] by (simp add: hc_def)
  have nf: "\<not> int (length (Lines bufCode)) + BuffersHeight [bufMode] \<le> maxHeight"
    using assms(1,4,5) by linarith
  show ?thesis
    using assms(1,2) nf t tm m w
    by (simp add: allocate_def BuffersHeight2 Let_def sz_def hc_def dot_def)
qed

lemma allocate_dot_line:
  assumes "maxHeight < int (length (Lines bufCode)) + BuffersHeight [bufMode]"
    and "maxHeight < BuffersHeight [bufMode] + 1" and "maxHeight < 2"
    and "0 \<le> DotLine bufCode" and "DotLine bufCode < int (length (Lines bufCode))"
  shows "allocate maxHeight bufCode bufMode
       = Inr (\<lparr>Lines = take 1 (drop (nat (DotLine bufCode)) (Lines bufCode)), DotLine = 0\<rparr>,
              None, 0)"
proof -
  have t: "TrimToLines bufCode (DotLine bufCode) (DotLine bufCode + 1)
     = Inr \<lparr>Lines = take 1 (drop (nat (DotLine bufCode)) (Lines bufCode)), DotLine = 0\<rparr>"
    using assms(4,5) TrimToLines_inside [of "DotLine bufCode" "DotLine bufCode + 1" bufCode]
    by simp
  show ?thesis
    using assms(1-3) t by (simp add: allocate_def BuffersHeight2 Let_def)
qed

text \<open>
  \<^verbatim>\<open>Render\<close> after the \<^verbatim>\<open>switch\<close>: a failure of the allocation is its failure; a
  listing is rendered, for the height left, when that is positive and the mode is a
  lister.
\<close>

lemma Render_fails_with_allocate:
  "allocate maxHeight bufCode (modeLine mode) = Inl p
   \<Longrightarrow> mainRenderer_Render maxHeight bufCode mode = Inl p"
  by (simp add: mainRenderer_Render_def)

lemma Render_no_listing:
  "allocate maxHeight bufCode (modeLine mode) = Inr (c, m, 0)
   \<Longrightarrow> mainRenderer_Render maxHeight bufCode mode
       = Inr \<lparr>outCode = c, outMode = m, outListing = None, hListing = 0\<rparr>"
  by (simp add: mainRenderer_Render_def split: option.splits)

lemma Render_listing:
  "allocate maxHeight bufCode (modeLine mode) = Inr (c, m, h)
   \<Longrightarrow> mainRenderer_Render maxHeight bufCode mode
       = Inr \<lparr>outCode = c,
              outMode = (if lister mode \<noteq> None \<and> 0 < h \<and> redrawModeLineAfterList mode
                         then modeLineAfterList mode else m),
              outListing = (case lister mode of
                              Some list \<Rightarrow> if 0 < h then list h else None
                            | None \<Rightarrow> None),
              hListing = h\<rparr>"
  by (simp add: mainRenderer_Render_def split: option.splits)

text \<open>
  The four cases on a code buffer of five lines with the dot on line 3: everything
  fits in ten lines and the listing gets the four left; three lines keep the mode line
  and a window of two code lines; two lines, with a mode line of two, keep its first
  line and the dot's line; one line keeps the dot's line only.
\<close>

lemma Render_examples:
  "mainRenderer_Render 10 exampleCode (exampleMode [10])
       = Inr \<lparr>outCode = exampleCode, outMode = Some \<lparr>Lines = [10], DotLine = 0\<rparr>,
              outListing = Some \<lparr>Lines = [20, 20, 20, 20], DotLine = 0\<rparr>, hListing = 4\<rparr>"
  "mainRenderer_Render 3 exampleCode (exampleMode [10])
       = Inr \<lparr>outCode = \<lparr>Lines = [2, 3], DotLine = 1\<rparr>,
              outMode = Some \<lparr>Lines = [10], DotLine = 0\<rparr>, outListing = None, hListing = 0\<rparr>"
  "mainRenderer_Render 2 exampleCode (exampleMode [10, 11])
       = Inr \<lparr>outCode = \<lparr>Lines = [3], DotLine = 0\<rparr>,
              outMode = Some \<lparr>Lines = [10], DotLine = 0\<rparr>, outListing = None, hListing = 0\<rparr>"
  "mainRenderer_Render 1 exampleCode (exampleMode [10])
       = Inr \<lparr>outCode = \<lparr>Lines = [3], DotLine = 0\<rparr>,
              outMode = None, outListing = None, hListing = 0\<rparr>"
proof -
  have w: "clicore_findWindow 3 5 2 = (2, 4)" "clicore_findWindow 3 5 1 = (3, 4)"
    by (simp_all add: clicore_findWindow_def Let_def signed_divide_int_def wrap_def)
  have h: "int (length (Lines exampleCode)) = 5" "DotLine exampleCode = 3"
    "modeLine (exampleMode ls) = Some \<lparr>Lines = ls, DotLine = 0\<rparr>"
    "BuffersHeight [Some \<lparr>Lines = [10::nat], DotLine = 0\<rparr>] = 1"
    "BuffersHeight [Some \<lparr>Lines = [10, 11::nat], DotLine = 0\<rparr>] = 2" for ls
    by (simp_all add: exampleCode_def exampleMode_def BuffersHeight_def)
  have l: "lister (exampleMode ls) = Some (\<lambda>h. Some \<lparr>Lines = replicate (nat h) 20, DotLine = 0\<rparr>)"
    "\<not> redrawModeLineAfterList (exampleMode ls)" for ls
    by (simp_all add: exampleMode_def)
  have t: "TrimToLines exampleCode 2 4 = Inr \<lparr>Lines = [2, 3], DotLine = 1\<rparr>"
    "TrimToLines exampleCode 3 4 = Inr \<lparr>Lines = [3], DotLine = 0\<rparr>"
    "TrimToLines \<lparr>Lines = [10, 11::nat], DotLine = 0\<rparr> 0 1 = Inr \<lparr>Lines = [10], DotLine = 0\<rparr>"
    by (simp_all add: TrimToLines_def exampleCode_def numeral_2_eq_2 numeral_3_eq_3)
  have a1: "allocate 10 exampleCode (modeLine (exampleMode [10]))
      = Inr (exampleCode, Some \<lparr>Lines = [10], DotLine = 0\<rparr>, 4)"
    by (simp add: allocate_def BuffersHeight2 h)
  have a2: "allocate 3 exampleCode (modeLine (exampleMode [10]))
      = Inr (\<lparr>Lines = [2, 3], DotLine = 1\<rparr>, Some \<lparr>Lines = [10], DotLine = 0\<rparr>, 0)"
    by (simp add: allocate_def BuffersHeight2 h w t)
  have a3: "allocate 2 exampleCode (modeLine (exampleMode [10, 11]))
      = Inr (\<lparr>Lines = [3], DotLine = 0\<rparr>, Some \<lparr>Lines = [10], DotLine = 0\<rparr>, 0)"
    by (simp add: allocate_def BuffersHeight2 h w t)
  have a4: "allocate 1 exampleCode (modeLine (exampleMode [10]))
      = Inr (\<lparr>Lines = [3], DotLine = 0\<rparr>, None, 0)"
    by (simp add: allocate_def BuffersHeight2 h t)
  show "mainRenderer_Render 10 exampleCode (exampleMode [10])
       = Inr \<lparr>outCode = exampleCode, outMode = Some \<lparr>Lines = [10], DotLine = 0\<rparr>,
              outListing = Some \<lparr>Lines = [20, 20, 20, 20], DotLine = 0\<rparr>, hListing = 4\<rparr>"
    using Render_listing [OF a1] by (simp add: l numeral_eq_Suc)
  show "mainRenderer_Render 3 exampleCode (exampleMode [10])
       = Inr \<lparr>outCode = \<lparr>Lines = [2, 3], DotLine = 1\<rparr>,
              outMode = Some \<lparr>Lines = [10], DotLine = 0\<rparr>, outListing = None, hListing = 0\<rparr>"
    by (rule Render_no_listing [OF a2])
  show "mainRenderer_Render 2 exampleCode (exampleMode [10, 11])
       = Inr \<lparr>outCode = \<lparr>Lines = [3], DotLine = 0\<rparr>,
              outMode = Some \<lparr>Lines = [10], DotLine = 0\<rparr>, outListing = None, hListing = 0\<rparr>"
    by (rule Render_no_listing [OF a3])
  show "mainRenderer_Render 1 exampleCode (exampleMode [10])
       = Inr \<lparr>outCode = \<lparr>Lines = [3], DotLine = 0\<rparr>,
              outMode = None, outListing = None, hListing = 0\<rparr>"
    by (rule Render_no_listing [OF a4])
qed

text \<open>
  Claim C4. The renderer allocates the height in strict priority order among code
  area, mode line and mode panel; its third case, "else if at least 2 lines are
  available, the mode line is cropped to one line and the rest is a cursor-centered
  code window", does not hold of the code: for a code buffer of one line with the dot
  on it, a mode line of three lines and \<open>maxHeight = 3\<close>, neither the first case
  (\<open>3 \<ge> 1 + 3\<close>) nor the second (\<open>3 \<ge> 3 + 1\<close>) applies, the third asks
  \<^verbatim>\<open>findWindow(0, 1, 2)\<close> for the window, that is \<open>(0, 2)\<close>, and trimming the buffer
  of one line to the lines from 0 up to 2 fails: \<^verbatim>\<open>Render\<close> yields no frame.
\<close>

theorem Render_window_past_code_buffer:
  "int (length (Lines shortCode)) = 1
   \<and> DotLine shortCode = 0
   \<and> BuffersHeight [modeLine (exampleMode [10, 11, 12])] = 3
   \<and> clicore_findWindow (DotLine shortCode) (int (length (Lines shortCode))) (3 - 1) = (0, 2)
   \<and> TrimToLines shortCode 0 2 = Inl SliceBoundsOutOfRange
   \<and> mainRenderer_Render 3 shortCode (exampleMode [10, 11, 12]) = Inl SliceBoundsOutOfRange"
proof -
  have h: "int (length (Lines shortCode)) = 1" "DotLine shortCode = 0"
    "BuffersHeight [modeLine (exampleMode [10, 11, 12])] = 3"
    "BuffersHeight [Some shortCode, modeLine (exampleMode [10, 11, 12])] = 4"
    by (simp_all add: shortCode_def exampleMode_def BuffersHeight_def)
  have w: "clicore_findWindow 0 1 2 = (0, 2)"
    by (simp add: clicore_findWindow_def Let_def signed_divide_int_def wrap_def)
  have t: "TrimToLines shortCode 0 2 = Inl SliceBoundsOutOfRange"
    by (simp add: TrimToLines_def shortCode_def)
  have tm: "TrimToLines \<lparr>Lines = [10, 11, 12::nat], DotLine = 0\<rparr> 0 1
      = Inr \<lparr>Lines = [10], DotLine = 0\<rparr>"
    by (simp add: TrimToLines_def)
  have a: "allocate 3 shortCode (modeLine (exampleMode [10, 11, 12])) = Inl SliceBoundsOutOfRange"
    unfolding allocate_def h using h(1,2) w t tm
    by (simp add: exampleMode_def)
  have r: "mainRenderer_Render 3 shortCode (exampleMode [10, 11, 12]) = Inl SliceBoundsOutOfRange"
    using a by (simp add: mainRenderer_Render_def)
  from h w t r show ?thesis by simp
qed

subsection \<open>Decoding the last rune of a string\<close>

text \<open>
  For every valid code point, \<open>DecodeLastRuneInString\<close> finds, at the end of any
  string that ends with the code point's encoding, that code point and the length of
  its encoding. The proof follows the backward scan byte by byte, for each of the four
  lengths.
\<close>

lemma byte_of_char_of: "k < 256 \<Longrightarrow> (of_char (char_of (k::nat)) :: nat) = k"
  by simp

lemma nth_append_at: "(s @ xs) ! (length s + j) = xs ! j"
  by (simp add: nth_append)

lemma RuneStart_cont: "0x80 \<le> b \<Longrightarrow> b \<le> 0xBF \<Longrightarrow> \<not> RuneStart b"
proof -
  assume "0x80 \<le> b" "b \<le> 0xBF"
  then have "b div 64 = 2" by (intro div_nat_eqI) simp_all
  then show ?thesis by (simp add: RuneStart_def)
qed

lemma RuneStart_lead: "0xC0 \<le> b \<Longrightarrow> b < 256 \<Longrightarrow> RuneStart b"
proof -
  assume "0xC0 \<le> b" "b < 256"
  then have "b div 64 = 3" by (intro div_nat_eqI) simp_all
  then show ?thesis by (simp add: RuneStart_def)
qed

lemma decode_last_1:
  assumes "b < 0x80"
  shows "DecodeLastRuneInString (s @ [char_of (b::nat)]) = (int b, 1)"
  using assms by (simp add: DecodeLastRuneInString_def Let_def nth_append)

lemma scan_hit:
  assumes "lim \<le> int (length pre)" "RuneStart (of_char (x::char))"
  shows "scanStart (pre @ x # xs) lim (int (length pre)) = int (length pre)"
  using assms by (simp add: scanStart.simps [of "pre @ x # xs" lim "int (length pre)"])

lemma scan_skip:
  assumes "lim \<le> int (length pre)" "\<not> RuneStart (of_char (x::char))"
  shows "scanStart (pre @ x # xs) lim (int (length pre))
         = scanStart (pre @ x # xs) lim (int (length pre) - 1)"
  by (subst scanStart.simps) (use assms in simp)

lemma DecodeRune_2:
  assumes "firstInfo b0 = Some (2, lo, hi)" "0x80 \<le> b0" "b0 < 256"
    and "lo \<le> b1" "b1 \<le> hi" "b1 < 256"
  shows "DecodeRuneInString [char_of (b0::nat), char_of (b1::nat)]
         = (int (b0 mod 32 * 64 + b1 mod 64), 2)"
  using assms by (simp add: DecodeRuneInString_def Let_def)

lemma DecodeRune_3:
  assumes "firstInfo b0 = Some (3, lo, hi)" "0x80 \<le> b0" "b0 < 256"
    and "lo \<le> b1" "b1 \<le> hi" "b1 < 256" 
    and "0x80 \<le> b2" "b2 \<le> 0xBF"
  shows "DecodeRuneInString [char_of (b0::nat), char_of (b1::nat), char_of (b2::nat)]
         = (int (b0 mod 16 * 4096 + b1 mod 64 * 64 + b2 mod 64), 3)"
  using assms by (simp add: DecodeRuneInString_def Let_def)

lemma DecodeRune_4:
  assumes "firstInfo b0 = Some (4, lo, hi)" "0x80 \<le> b0" "b0 < 256"
    and "lo \<le> b1" "b1 \<le> hi" "b1 < 256" 
    and "0x80 \<le> b2" "b2 \<le> 0xBF"
    and "0x80 \<le> b3" "b3 \<le> 0xBF"
  shows "DecodeRuneInString [char_of (b0::nat), char_of (b1::nat), char_of (b2::nat), char_of (b3::nat)]
         = (int (b0 mod 8 * 262144 + b1 mod 64 * 4096 + b2 mod 64 * 64 + b3 mod 64), 4)"
  using assms by (simp add: DecodeRuneInString_def Let_def)

lemma decode_last_2:
  assumes d: "DecodeRuneInString [c0, c1] = (r, 2)"
    and "RuneStart (of_char c0)" "0x80 \<le> (of_char c1 :: nat)"
  shows "DecodeLastRuneInString (s @ [c0, c1]) = (r, 2)"
proof -
  let ?S = "s @ [c0, c1]"
  let ?lim = "if int (length ?S) - 4 < 0 then 0 else int (length ?S) - 4"
  have last: "?S ! nat (int (length ?S) - 1) = c1"
    by (simp add: nth_append nat_add_distrib)
  have sc: "scanStart ?S ?lim (int (length ?S) - 1 - 1) = int (length s)"
    using scan_hit [of ?lim s c0 "[c1]"] assms(2) by simp
  have dr: "drop (length s) ?S = [c0, c1]" by simp
  show ?thesis
    unfolding DecodeLastRuneInString_def Let_def last sc
    using assms(3) d by (simp add: dr)
qed


lemma decode_last_3:
  assumes d: "DecodeRuneInString [c0, c1, c2] = (r, 3)"
    and "RuneStart (of_char c0)" "\<not> RuneStart (of_char c1)" "0x80 \<le> (of_char c2 :: nat)"
  shows "DecodeLastRuneInString (s @ [c0, c1, c2]) = (r, 3)"
proof -
  let ?S = "s @ [c0, c1, c2]"
  let ?lim = "if int (length ?S) - 4 < 0 then 0 else int (length ?S) - 4"
  have last: "?S ! nat (int (length ?S) - 1) = c2"
    by (simp add: nth_append nat_add_distrib)
  have s1: "scanStart ((s @ [c0]) @ c1 # [c2]) ?lim (int (length (s @ [c0])))
            = scanStart ((s @ [c0]) @ c1 # [c2]) ?lim (int (length (s @ [c0])) - 1)"
    by (rule scan_skip) (use assms(3) in simp_all)
  have s0: "scanStart (s @ c0 # [c1, c2]) ?lim (int (length s)) = int (length s)"
    by (rule scan_hit) (use assms(2) in simp_all)
  have sc: "scanStart ?S ?lim (int (length ?S) - 1 - 1) = int (length s)"
    using s1 s0 by simp
  have dr: "drop (length s) ?S = [c0, c1, c2]" by simp
  show ?thesis
    unfolding DecodeLastRuneInString_def Let_def last sc
    using assms(4) d by (simp add: dr)
qed

lemma decode_last_4:
  assumes d: "DecodeRuneInString [c0, c1, c2, c3] = (r, 4)"
    and "RuneStart (of_char c0)" "\<not> RuneStart (of_char c1)" "\<not> RuneStart (of_char c2)"
      "0x80 \<le> (of_char c3 :: nat)"
  shows "DecodeLastRuneInString (s @ [c0, c1, c2, c3]) = (r, 4)"
proof -
  let ?S = "s @ [c0, c1, c2, c3]"
  let ?lim = "if int (length ?S) - 4 < 0 then 0 else int (length ?S) - 4"
  have last: "?S ! nat (int (length ?S) - 1) = c3"
    by (simp add: nth_append nat_add_distrib)
  have s2: "scanStart ((s @ [c0, c1]) @ c2 # [c3]) ?lim (int (length (s @ [c0, c1])))
            = scanStart ((s @ [c0, c1]) @ c2 # [c3]) ?lim (int (length (s @ [c0, c1])) - 1)"
    by (rule scan_skip) (use assms(4) in simp_all)
  have s1: "scanStart ((s @ [c0]) @ c1 # [c2, c3]) ?lim (int (length (s @ [c0])))
            = scanStart ((s @ [c0]) @ c1 # [c2, c3]) ?lim (int (length (s @ [c0])) - 1)"
    by (rule scan_skip) (use assms(3) in simp_all)
  have s0: "scanStart (s @ c0 # [c1, c2, c3]) ?lim (int (length s)) = int (length s)"
    by (rule scan_hit) (use assms(2) in simp_all)
  have sc: "scanStart ?S ?lim (int (length ?S) - 1 - 1) = int (length s)"
    using s2 s1 s0 by simp
  have dr: "drop (length s) ?S = [c0, c1, c2, c3]" by simp
  show ?thesis
    unfolding DecodeLastRuneInString_def Let_def last sc
    using assms(5) d by (simp add: dr)
qed


lemma mod_lead2: "q < 32 \<Longrightarrow> (0xC0 + q) mod 32 = (q::nat)"
  using mod_mult_self3 [of 6 32 q] by simp

lemma mod_lead3: "q < 16 \<Longrightarrow> (0xE0 + q) mod 16 = (q::nat)"
  using mod_mult_self3 [of 14 16 q] by simp

lemma mod_lead4: "q < 8 \<Longrightarrow> (0xF0 + q) mod 8 = (q::nat)"
  using mod_mult_self3 [of 30 8 q] by simp

lemma mod_cont: "m < 64 \<Longrightarrow> (0x80 + m) mod 64 = (m::nat)"
  using mod_mult_self3 [of 2 64 m] by simp

lemma split2: "(n::nat) = n div 64 * 64 + n mod 64"
  by simp

lemma split3: "(n::nat) = n div 4096 * 4096 + n div 64 mod 64 * 64 + n mod 64"
proof -
  have "n mod 4096 = 64 * (n div 64 mod 64) + n mod 64"
    using mod_mult2_eq [of n 64 64] by simp
  moreover have "n = n div 4096 * 4096 + n mod 4096" by simp
  ultimately show ?thesis by simp
qed

lemma split4:
  "(n::nat) = n div 262144 * 262144 + n div 4096 mod 64 * 4096 + n div 64 mod 64 * 64 + n mod 64"
proof -
  have "n mod 262144 = 4096 * (n div 4096 mod 64) + n mod 4096"
    using mod_mult2_eq [of n 4096 64] by simp
  moreover have "n mod 4096 = 64 * (n div 64 mod 64) + n mod 64"
    using mod_mult2_eq [of n 64 64] by simp
  moreover have "n = n div 262144 * 262144 + n mod 262144" by simp
  ultimately show ?thesis by simp
qed

lemma enc2:
  assumes "0x80 \<le> n" "n \<le> 0x7FF"
  shows "DecodeRuneInString [char_of (0xC0 + n div 64), char_of (0x80 + n mod 64)] = (int n, 2)"
    and "RuneStart (of_char (char_of (0xC0 + n div 64 :: nat)))"
    and "0x80 \<le> (of_char (char_of (0x80 + n mod 64 :: nat)) :: nat)"
proof -
  define q0 where "q0 = n div 64"
  define q1 where "q1 = n mod 64"
  have n: "n = q0 * 64 + q1" unfolding q0_def q1_def by (rule split2)
  have q1: "q1 < 64" by (simp add: q1_def)
  have q0: "2 \<le> q0" "q0 \<le> 31" using n q1 assms by simp_all
  have fi: "firstInfo (0xC0 + q0) = Some (2, 0x80, 0xBF)"
    using q0 by (simp add: firstInfo_def)
  have "DecodeRuneInString [char_of (0xC0 + q0), char_of (0x80 + q1)]
        = (int ((0xC0 + q0) mod 32 * 64 + (0x80 + q1) mod 64), 2)"
    by (rule DecodeRune_2 [OF fi]) (use q0 q1 in simp_all)
  moreover have "int ((0xC0 + q0) mod 32 * 64 + (0x80 + q1) mod 64) = int n"
    using q0 q1 by (simp add: mod_lead2 mod_cont n)
  ultimately have "DecodeRuneInString [char_of (0xC0 + q0), char_of (0x80 + q1)] = (int n, 2)"
    by simp
  then show "DecodeRuneInString [char_of (0xC0 + n div 64), char_of (0x80 + n mod 64)] = (int n, 2)"
    unfolding q0_def q1_def .
  have "(of_char (char_of (0xC0 + q0)) :: nat) = 0xC0 + q0" using q0 by simp
  then show "RuneStart (of_char (char_of (0xC0 + n div 64 :: nat)))"
    using q0 RuneStart_lead [of "0xC0 + q0"] by (simp add: q0_def [symmetric])
  have "(of_char (char_of (0x80 + q1)) :: nat) = 0x80 + q1" using q1 by simp
  then show "0x80 \<le> (of_char (char_of (0x80 + n mod 64 :: nat)) :: nat)"
    by (simp add: q1_def [symmetric])
qed


lemma cont_byte:
  assumes "q < 64"
  shows "(of_char (char_of (0x80 + q :: nat)) :: nat) = 0x80 + q"
    and "\<not> RuneStart (of_char (char_of (0x80 + q :: nat)))"
    and "0x80 \<le> (of_char (char_of (0x80 + q :: nat)) :: nat)"
proof -
  show e: "(of_char (char_of (0x80 + q :: nat)) :: nat) = 0x80 + q" using assms by simp
  show "\<not> RuneStart (of_char (char_of (0x80 + q :: nat)))"
    unfolding e by (rule RuneStart_cont) (use assms in simp_all)
  show "0x80 \<le> (of_char (char_of (0x80 + q :: nat)) :: nat)" unfolding e by simp
qed

lemma lead_byte:
  assumes "0xC0 \<le> b" "b < 256"
  shows "RuneStart (of_char (char_of (b :: nat)))"
proof -
  have "(of_char (char_of b) :: nat) = b" using assms by simp
  then show ?thesis using RuneStart_lead [OF assms] by simp
qed

lemma enc3:
  assumes "0x800 \<le> n" "n \<le> 0xFFFF" "\<not> (0xD800 \<le> n \<and> n \<le> 0xDFFF)"
  shows "DecodeRuneInString
           [char_of (0xE0 + n div 4096), char_of (0x80 + n div 64 mod 64), char_of (0x80 + n mod 64)]
         = (int n, 3)"
proof -
  define q0 where "q0 = n div 4096"
  define q1 where "q1 = n div 64 mod 64"
  define q2 where "q2 = n mod 64"
  have n: "n = q0 * 4096 + q1 * 64 + q2" unfolding q0_def q1_def q2_def by (rule split3)
  have q: "q1 < 64" "q2 < 64" by (simp_all add: q1_def q2_def)
  have q0: "q0 \<le> 15" using n q assms(2) by simp
  have "\<exists>lo hi. firstInfo (0xE0 + q0) = Some (3, lo, hi) \<and> lo \<le> 0x80 + q1 \<and> 0x80 + q1 \<le> hi"
  proof -
    consider "q0 = 0" | "1 \<le> q0 \<and> q0 \<le> 12" | "q0 = 13" | "14 \<le> q0" by linarith
    then show ?thesis
    proof cases
      case 1
      then have "32 \<le> q1" using n q assms(1) by simp
      then show ?thesis using 1 q by (simp add: firstInfo_def)
    next
      case 2
      then show ?thesis using q by (simp add: firstInfo_def)
    next
      case 3
      then have "q1 \<le> 31" using n q assms(2,3) by simp
      then show ?thesis using 3 by (simp add: firstInfo_def)
    next
      case 4
      then show ?thesis using q q0 by (simp add: firstInfo_def)
    qed
  qed
  then obtain lo hi where fi: "firstInfo (0xE0 + q0) = Some (3, lo, hi)"
    and r: "lo \<le> 0x80 + q1" "0x80 + q1 \<le> hi" by blast
  have "DecodeRuneInString [char_of (0xE0 + q0), char_of (0x80 + q1), char_of (0x80 + q2)]
        = (int ((0xE0 + q0) mod 16 * 4096 + (0x80 + q1) mod 64 * 64 + (0x80 + q2) mod 64), 3)"
    by (rule DecodeRune_3 [OF fi _ _ r]) (use q0 q in simp_all)
  moreover have "int ((0xE0 + q0) mod 16 * 4096 + (0x80 + q1) mod 64 * 64 + (0x80 + q2) mod 64)
        = int n"
    using q0 q by (simp add: mod_lead3 mod_cont n)
  ultimately have "DecodeRuneInString
      [char_of (0xE0 + q0), char_of (0x80 + q1), char_of (0x80 + q2)] = (int n, 3)"
    by simp
  then show ?thesis unfolding q0_def q1_def q2_def .
qed

lemma enc4:
  assumes "0x10000 \<le> n" "n \<le> 0x10FFFF"
  shows "DecodeRuneInString
           [char_of (0xF0 + n div 262144), char_of (0x80 + n div 4096 mod 64),
            char_of (0x80 + n div 64 mod 64), char_of (0x80 + n mod 64)]
         = (int n, 4)"
proof -
  define q0 where "q0 = n div 262144"
  define q1 where "q1 = n div 4096 mod 64"
  define q2 where "q2 = n div 64 mod 64"
  define q3 where "q3 = n mod 64"
  have n: "n = q0 * 262144 + q1 * 4096 + q2 * 64 + q3"
    unfolding q0_def q1_def q2_def q3_def by (rule split4)
  have q: "q1 < 64" "q2 < 64" "q3 < 64" by (simp_all add: q1_def q2_def q3_def)
  have q0: "q0 \<le> 4" using n q assms(2) by simp
  have "\<exists>lo hi. firstInfo (0xF0 + q0) = Some (4, lo, hi) \<and> lo \<le> 0x80 + q1 \<and> 0x80 + q1 \<le> hi"
  proof -
    consider "q0 = 0" | "1 \<le> q0 \<and> q0 \<le> 3" | "q0 = 4" using q0 by linarith
    then show ?thesis
    proof cases
      case 1
      then have "16 \<le> q1" using n q assms(1) by simp
      then show ?thesis using 1 q by (simp add: firstInfo_def)
    next
      case 2
      then show ?thesis using q by (simp add: firstInfo_def)
    next
      case 3
      then have "q1 \<le> 15" using n q assms(2) by simp
      then show ?thesis using 3 by (simp add: firstInfo_def)
    qed
  qed
  then obtain lo hi where fi: "firstInfo (0xF0 + q0) = Some (4, lo, hi)"
    and r: "lo \<le> 0x80 + q1" "0x80 + q1 \<le> hi" by blast
  have "DecodeRuneInString
          [char_of (0xF0 + q0), char_of (0x80 + q1), char_of (0x80 + q2), char_of (0x80 + q3)]
        = (int ((0xF0 + q0) mod 8 * 262144 + (0x80 + q1) mod 64 * 4096
                + (0x80 + q2) mod 64 * 64 + (0x80 + q3) mod 64), 4)"
    by (rule DecodeRune_4 [OF fi _ _ r]) (use q0 q in simp_all)
  moreover have "int ((0xF0 + q0) mod 8 * 262144 + (0x80 + q1) mod 64 * 4096
                + (0x80 + q2) mod 64 * 64 + (0x80 + q3) mod 64) = int n"
    using q0 q by (simp add: mod_lead4 mod_cont n)
  ultimately have "DecodeRuneInString
      [char_of (0xF0 + q0), char_of (0x80 + q1), char_of (0x80 + q2), char_of (0x80 + q3)]
      = (int n, 4)"
    by simp
  then show ?thesis unfolding q0_def q1_def q2_def q3_def .
qed


lemma DecodeLast_EncodeRune:
  assumes "validRune r"
  shows "DecodeLastRuneInString (s @ EncodeRune r) = (r, int (length (EncodeRune r)))"
proof -
  define n where "n = nat r"
  have r: "r = int n" using assms by (simp add: n_def validRune_def)
  have nmax: "n \<le> 0x10FFFF" and nsur: "\<not> (0xD800 \<le> n \<and> n \<le> 0xDFFF)"
    using assms by (auto simp add: n_def validRune_def)
  have enc: "EncodeRune r =
     (if n \<le> 0x7F then [char_of n]
      else if n \<le> 0x7FF then [char_of (0xC0 + n div 64), char_of (0x80 + n mod 64)]
      else if n \<le> 0xFFFF then
        [char_of (0xE0 + n div 4096), char_of (0x80 + n div 64 mod 64), char_of (0x80 + n mod 64)]
      else
        [char_of (0xF0 + n div 262144), char_of (0x80 + n div 4096 mod 64),
         char_of (0x80 + n div 64 mod 64), char_of (0x80 + n mod 64)])"
    using assms by (simp add: EncodeRune_def Let_def n_def)
  consider "n \<le> 0x7F" | "0x80 \<le> n \<and> n \<le> 0x7FF" | "0x800 \<le> n \<and> n \<le> 0xFFFF" | "0x10000 \<le> n"
    by linarith
  then show ?thesis
  proof cases
    case 1
    then have e: "EncodeRune r = [char_of n]" by (simp add: enc)
    have "DecodeLastRuneInString (s @ [char_of n]) = (int n, 1)"
      by (rule decode_last_1) (use 1 in simp)
    then show ?thesis unfolding e by (simp add: r)
  next
    case 2
    then have e: "EncodeRune r = [char_of (0xC0 + n div 64), char_of (0x80 + n mod 64)]"
      by (simp add: enc)
    have "DecodeLastRuneInString (s @ [char_of (0xC0 + n div 64), char_of (0x80 + n mod 64)])
          = (int n, 2)"
      by (rule decode_last_2) (use 2 enc2 [of n] in simp_all)
    then show ?thesis unfolding e by (simp add: r)
  next
    case 3
    then have e: "EncodeRune r =
        [char_of (0xE0 + n div 4096), char_of (0x80 + n div 64 mod 64), char_of (0x80 + n mod 64)]"
      by (simp add: enc)
    have q0: "n div 4096 \<le> 15" using 3 div_le_mono [of n "0xFFFF" 4096] by simp
    have "DecodeLastRuneInString
            (s @ [char_of (0xE0 + n div 4096), char_of (0x80 + n div 64 mod 64),
                  char_of (0x80 + n mod 64)]) = (int n, 3)"
    proof (rule decode_last_3)
      show "DecodeRuneInString
             [char_of (0xE0 + n div 4096), char_of (0x80 + n div 64 mod 64),
              char_of (0x80 + n mod 64)] = (int n, 3)"
        by (rule enc3) (use 3 nsur in simp_all)
      show "RuneStart (of_char (char_of (0xE0 + n div 4096)))"
        by (rule lead_byte) (use q0 in simp_all)
      show "\<not> RuneStart (of_char (char_of (0x80 + n div 64 mod 64)))"
        by (rule cont_byte) simp
      show "0x80 \<le> (of_char (char_of (0x80 + n mod 64)) :: nat)"
        by (rule cont_byte) simp
    qed
    then show ?thesis unfolding e by (simp add: r)
  next
    case 4
    then have e: "EncodeRune r =
        [char_of (0xF0 + n div 262144), char_of (0x80 + n div 4096 mod 64),
         char_of (0x80 + n div 64 mod 64), char_of (0x80 + n mod 64)]"
      by (simp add: enc)
    have q0: "n div 262144 \<le> 4" using nmax div_le_mono [of n "0x10FFFF" 262144] by simp
    have "DecodeLastRuneInString
            (s @ [char_of (0xF0 + n div 262144), char_of (0x80 + n div 4096 mod 64),
                  char_of (0x80 + n div 64 mod 64), char_of (0x80 + n mod 64)]) = (int n, 4)"
    proof (rule decode_last_4)
      show "DecodeRuneInString
             [char_of (0xF0 + n div 262144), char_of (0x80 + n div 4096 mod 64),
              char_of (0x80 + n div 64 mod 64), char_of (0x80 + n mod 64)] = (int n, 4)"
        by (rule enc4) (use 4 nmax in simp_all)
      show "RuneStart (of_char (char_of (0xF0 + n div 262144)))"
        by (rule lead_byte) (use q0 in simp_all)
      show "\<not> RuneStart (of_char (char_of (0x80 + n div 4096 mod 64)))"
        by (rule cont_byte) simp
      show "\<not> RuneStart (of_char (char_of (0x80 + n div 64 mod 64)))"
        by (rule cont_byte) simp
      show "0x80 \<le> (of_char (char_of (0x80 + n mod 64)) :: nat)"
        by (rule cont_byte) simp
    qed
    then show ?thesis unfolding e by (simp add: r)
  qed
qed

subsection \<open>The listing mode's default handler\<close>

lemma refilter_fields:
  "filter_text (refilter f mst) = f" "items (refilter f mst) = itemsGetter mst f"
  "itemsGetter (refilter f mst) = itemsGetter mst" "filtering (refilter f mst) = filtering mst"
  by (simp_all add: refilter_def Let_def)

lemma exampleListing_simps:
  "filtering (exampleListing f)" "filter_text (exampleListing f) = f"
  "refilter g (exampleListing f) = exampleListing g"
  by (simp_all add: exampleListing_def refilter_def Let_def)

lemma asciiExt_simps:
  "ui_Backspace asciiExt = 0x7F" "likeChar asciiExt (K 0x61)" "K 0x61 \<noteq> K 0x7F"
  "likeChar asciiExt (K 0x79)" "K 0x79 \<noteq> K 0x7F" "Rune (K r) = r"
  by (simp_all add: asciiExt_def likeChar_def K_def)

lemma EncodeRune_examples:
  "validRune 0x61" "EncodeRune 0x61 = ''a''"
  "validRune 0x64" "EncodeRune 0x64 = ''d''"
  "validRune 0x79" "EncodeRune 0x79 = ''y''"
  "validRune 0x4E16" "EncodeRune 0x4E16 = [CHR 0xE4, CHR 0xB8, CHR 0x96]"
  by (simp_all add: validRune_def EncodeRune_def Let_def char_of_eq_iff)

text \<open>
  Claim C6. While filtering is on: a key that is like a character (and is not the
  backspace key) appends the encoding of its rune to the filter; backspace on a filter
  that ends with the encoding of a valid code point removes exactly that encoding, all
  its bytes and no more; backspace on the empty filter changes nothing. Each change goes
  through \<open>refilter\<close>, after which the items are those the item producer returns for the
  new filter. Backspace on "hello world" gives "hello worl" (in the example below, with
  a three-byte character as well).
\<close>

theorem defaultHandler_filter_editing:
  assumes "filtering mst"
  shows
   "(likeChar ext k \<and> k \<noteq> K (ui_Backspace ext) \<longrightarrow>
       defaultHandler ext k st mst
         = (0, st, refilter (filter_text mst @ EncodeRune (Rune k)) mst)
       \<and> filter_text (snd (snd (defaultHandler ext k st mst)))
           = filter_text mst @ EncodeRune (Rune k)
       \<and> items (snd (snd (defaultHandler ext k st mst)))
           = itemsGetter mst (filter_text mst @ EncodeRune (Rune k)))
    \<and> (\<forall>s r. validRune r \<and> filter_text mst = s @ EncodeRune r \<longrightarrow>
       defaultHandler ext (K (ui_Backspace ext)) st mst = (0, st, refilter s mst)
       \<and> filter_text (snd (snd (defaultHandler ext (K (ui_Backspace ext)) st mst))) = s
       \<and> items (snd (snd (defaultHandler ext (K (ui_Backspace ext)) st mst)))
           = itemsGetter mst s)
    \<and> (filter_text mst = [] \<longrightarrow>
       defaultHandler ext (K (ui_Backspace ext)) st mst = (0, st, mst))"
proof (intro conjI allI impI)
  assume h: "likeChar ext k \<and> k \<noteq> K (ui_Backspace ext)"
  show a: "defaultHandler ext k st mst
         = (0, st, refilter (filter_text mst @ EncodeRune (Rune k)) mst)"
    using assms h by (simp add: defaultHandler_def Let_def)
  show "filter_text (snd (snd (defaultHandler ext k st mst)))
           = filter_text mst @ EncodeRune (Rune k)"
    by (simp add: a refilter_fields)
  show "items (snd (snd (defaultHandler ext k st mst)))
           = itemsGetter mst (filter_text mst @ EncodeRune (Rune k))"
    by (simp add: a refilter_fields)
next
  fix s r assume h: "validRune r \<and> filter_text mst = s @ EncodeRune r"
  have d: "DecodeLastRuneInString (filter_text mst) = (r, int (length (EncodeRune r)))"
    using h DecodeLast_EncodeRune [of r s] by simp
  have pos: "0 < length (EncodeRune r)"
    by (simp add: EncodeRune_def Let_def)
  have tk: "take (nat (int (length (filter_text mst)) - int (length (EncodeRune r)))) (filter_text mst) = s"
    using h by simp
  show a: "defaultHandler ext (K (ui_Backspace ext)) st mst = (0, st, refilter s mst)"
    using assms pos by (simp add: defaultHandler_def Let_def d tk)
  show "filter_text (snd (snd (defaultHandler ext (K (ui_Backspace ext)) st mst))) = s"
    by (simp add: a refilter_fields)
  show "items (snd (snd (defaultHandler ext (K (ui_Backspace ext)) st mst))) = itemsGetter mst s"
    by (simp add: a refilter_fields)
next
  assume "filter_text mst = []"
  then show "defaultHandler ext (K (ui_Backspace ext)) st mst = (0, st, mst)"
    using assms by (simp add: defaultHandler_def Let_def DecodeLastRuneInString_def)
qed

theorem defaultHandler_filter_editing_witness:
  "filtering (exampleListing ''hello world'')
   \<and> likeChar asciiExt (K 0x61) \<and> K 0x61 \<noteq> K (ui_Backspace asciiExt)
   \<and> defaultHandler asciiExt (K 0x61) emptyState (exampleListing [])
       = (0, emptyState, exampleListing ''a'')
   \<and> defaultHandler asciiExt (K 0x79) emptyState (exampleListing ''x'')
       = (0, emptyState, exampleListing ''xy'')
   \<and> defaultHandler asciiExt (K (ui_Backspace asciiExt)) emptyState (exampleListing ''hello world'')
       = (0, emptyState, exampleListing ''hello worl'')
   \<and> defaultHandler asciiExt (K (ui_Backspace asciiExt)) emptyState
         (exampleListing (''ab'' @ [CHR 0xE4, CHR 0xB8, CHR 0x96]))
       = (0, emptyState, exampleListing ''ab'')
   \<and> defaultHandler asciiExt (K (ui_Backspace asciiExt)) emptyState (exampleListing [])
       = (0, emptyState, exampleListing [])"
proof -
  have a: "defaultHandler asciiExt (K 0x61) emptyState (exampleListing [])
       = (0, emptyState, exampleListing ''a'')"
    using defaultHandler_filter_editing
      [where mst = "exampleListing []" and ext = asciiExt and k = "K 0x61" and st = emptyState]
    by (simp add: exampleListing_simps asciiExt_simps EncodeRune_examples)
  have y: "defaultHandler asciiExt (K 0x79) emptyState (exampleListing ''x'')
       = (0, emptyState, exampleListing ''xy'')"
    using defaultHandler_filter_editing
      [where mst = "exampleListing ''x''" and ext = asciiExt and k = "K 0x79" and st = emptyState]
    by (simp add: exampleListing_simps asciiExt_simps EncodeRune_examples)
  have b: "defaultHandler asciiExt (K (ui_Backspace asciiExt)) emptyState
             (exampleListing ''hello world'')
       = (0, emptyState, exampleListing ''hello worl'')"
    using defaultHandler_filter_editing
      [where mst = "exampleListing ''hello world''" and ext = asciiExt and st = emptyState,
        OF exampleListing_simps(1), THEN conjunct2, THEN conjunct1, rule_format,
        where s = "''hello worl''" and r = "0x64"]
    by (simp add: exampleListing_simps EncodeRune_examples)
  have c: "defaultHandler asciiExt (K (ui_Backspace asciiExt)) emptyState
         (exampleListing (''ab'' @ [CHR 0xE4, CHR 0xB8, CHR 0x96]))
       = (0, emptyState, exampleListing ''ab'')"
    using defaultHandler_filter_editing
      [where mst = "exampleListing (''ab'' @ [CHR 0xE4, CHR 0xB8, CHR 0x96])" and ext = asciiExt
         and st = emptyState,
        OF exampleListing_simps(1), THEN conjunct2, THEN conjunct1, rule_format,
        where s = "''ab''" and r = "0x4E16"]
    by (simp add: exampleListing_simps EncodeRune_examples)
  have d: "defaultHandler asciiExt (K (ui_Backspace asciiExt)) emptyState (exampleListing [])
       = (0, emptyState, exampleListing [])"
    using defaultHandler_filter_editing
      [where mst = "exampleListing []" and ext = asciiExt and st = emptyState]
    by (simp add: exampleListing_simps)
  from a y b c d show ?thesis
    by (simp add: exampleListing_simps asciiExt_simps)
qed


text \<open>
  The handler of the unbound keys, \<^verbatim>\<open>Mode.DefaultHandler\<close>, accepts automatically:
  when auto-accept is configured and, after the default handling of the binding key,
  the listing has exactly one item, it accepts item 0 on the editor state left by the
  handling and then sets the mode to \<open>nilMode\<close>; no accept key is involved. In the
  example a listing with filter "x" gets the key "y", the producer returns a single
  item for "xy", and the item is accepted.
\<close>

lemma DefaultHandler_auto_accept:
  assumes "AutoAccept (config m)"
    and "Len (items (snd (snd (defaultHandler ext (BindingKey st) st (state m))))) = 1"
  shows "fst (DefaultHandler ext m st)
           = SetMode nilMode
               (Accept (items (snd (snd (defaultHandler ext (BindingKey st) st (state m))))) 0
                  (fst (snd (defaultHandler ext (BindingKey st) st (state m)))))
       \<and> Mode (fst (DefaultHandler ext m st)) = nilMode
       \<and> state (snd (DefaultHandler ext m st))
           = snd (snd (defaultHandler ext (BindingKey st) st (state m)))"
  using assms by (simp add: DefaultHandler_def Let_def case_prod_unfold SetMode_def)

lemma DefaultHandler_auto_accept_example:
  "AutoAccept (config (exampleListingMode ''x''))
   \<and> Len (items (snd (snd (defaultHandler asciiExt (K 0x79)
           (emptyState\<lparr>Mode := otherMode (), BindingKey := K 0x79\<rparr>)
           (state (exampleListingMode ''x'')))))) = 1
   \<and> DefaultHandler asciiExt (exampleListingMode ''x'')
         (emptyState\<lparr>Mode := otherMode (), BindingKey := K 0x79\<rparr>)
       = (emptyState\<lparr>Mode := nilMode, Notes := [''accepted 0''], BindingKey := K 0x79\<rparr>,
          exampleListingMode ''xy'')"
proof -
  let ?st = "emptyState\<lparr>Mode := otherMode (), BindingKey := K 0x79\<rparr>"
  have k: "BindingKey ?st = K 0x79" by simp
  have dh: "defaultHandler asciiExt (K 0x79) ?st (exampleListing ''x'')
            = (0, ?st, exampleListing ''xy'')"
    using asciiExt_simps EncodeRune_examples exampleListing_simps
    by (simp add: defaultHandler_def Let_def)
  have st: "state (exampleListingMode ''x'') = exampleListing ''x''"
    "AutoAccept (config (exampleListingMode ''x''))"
    "(exampleListingMode ''x'')\<lparr>state := exampleListing ''xy''\<rparr> = exampleListingMode ''xy''"
    by (simp_all add: exampleListingMode_def)
  have len: "Len (items (exampleListing ''xy'')) = 1"
    by (simp add: exampleListing_def exampleGetter_def notingItems_def)
  have acc: "Accept (items (exampleListing ''xy'')) 0 ?st = ?st\<lparr>Notes := [''accepted 0'']\<rparr>"
    by (simp add: exampleListing_def exampleGetter_def notingItems_def AddNote_def emptyState_def
        char_of_eq_iff)
  have pair: "p = (fst p, snd p)" for p :: "unit RawState \<times> unit listing_Mode" by simp
  have m: "snd (DefaultHandler asciiExt (exampleListingMode ''x'') ?st) = exampleListingMode ''xy''"
    using len by (simp add: DefaultHandler_def Let_def k st dh)
  have "fst (DefaultHandler asciiExt (exampleListingMode ''x'') ?st)
        = ?st\<lparr>Mode := nilMode, Notes := [''accepted 0'']\<rparr>"
    using DefaultHandler_auto_accept [of "exampleListingMode ''x''" asciiExt ?st] len
    by (simp add: k st dh acc SetMode_def)
  then have "DefaultHandler asciiExt (exampleListingMode ''x'') ?st
       = (emptyState\<lparr>Mode := nilMode, Notes := [''accepted 0''], BindingKey := K 0x79\<rparr>,
          exampleListingMode ''xy'')"
    using m pair [of "DefaultHandler asciiExt (exampleListingMode ''x'') ?st"]
    by (simp add: emptyState_def)
  then show ?thesis using len by (simp add: st k dh)
qed

text \<open>
  The built-in binding on the steps of \<^verbatim>\<open>TestHandleEvent_DefaultBinding\<close>: Down and
  Up move the selection and stop at the first item, Shift-Tab and Tab move it and wrap
  around, Ctrl-F turns the filtering on, Ctrl-[ sets the mode to \<open>nilMode\<close>.
\<close>

lemma HandleEvent_default_binding_test:
  "HandleEvent exampleKeys asciiExt None (fakeListingMode 0) (KeyEvent (K (ui_Down exampleKeys))) st
     = (0, st, fakeListingMode 1)"
  "HandleEvent exampleKeys asciiExt None (fakeListingMode 1) (KeyEvent (K (ui_Up exampleKeys))) st
     = (0, st, fakeListingMode 0)"
  "HandleEvent exampleKeys asciiExt None (fakeListingMode 0) (KeyEvent (K (ui_Up exampleKeys))) st
     = (0, st, fakeListingMode 0)"
  "HandleEvent exampleKeys asciiExt None (fakeListingMode 0)
       (KeyEvent (KMod (ui_Tab exampleKeys) (ui_Shift exampleKeys))) st
     = (0, st, fakeListingMode 9)"
  "HandleEvent exampleKeys asciiExt None (fakeListingMode 9) (KeyEvent (K (ui_Tab exampleKeys))) st
     = (0, st, fakeListingMode 0)"
  "HandleEvent exampleKeys asciiExt None (fakeListingMode 0) (KeyEvent (K (ui_Tab exampleKeys))) st
     = (0, st, fakeListingMode 1)"
  "HandleEvent exampleKeys asciiExt None (fakeListingMode 1)
       (KeyEvent (KMod (ui_Tab exampleKeys) (ui_Shift exampleKeys))) st
     = (0, st, fakeListingMode 0)"
  "filtering (state (snd (snd (HandleEvent exampleKeys asciiExt None (fakeListingMode 0)
       (KeyEvent (KMod 0x46 (ui_Ctrl exampleKeys))) st))))"
  "HandleEvent exampleKeys asciiExt None (fakeListingMode 0)
       (KeyEvent (KMod 0x5B (ui_Ctrl exampleKeys))) st
     = (0, SetMode nilMode st, fakeListingMode 0)"
  by (simp_all add: HandleEvent_def defaultBinding_def exampleKeys_def K_def KMod_def
      fakeListingMode_def fakeItems_def Down_def Up_def DownCycle_def UpCycle_def
      ToggleFiltering_def)

text \<open>
  The built-in binding of \<^verbatim>\<open>HandleEvent\<close>, taken when the configuration has no
  \<^verbatim>\<open>KeyHandler\<close>, hands every key it does not name to the same \<^verbatim>\<open>defaultHandler\<close>,
  and no more: it leaves the editor state as it is, or sets the mode to \<open>nilMode\<close>, or
  adds the note of an unbound key. It never accepts an item. For a key that is like a
  character, while filtering, it changes the filter and leaves the editor state alone.
\<close>

lemma defaultHandler_editor_state:
  "fst (snd (defaultHandler ext k st mst)) = st
   \<or> fst (snd (defaultHandler ext k st mst)) = SetMode nilMode st
   \<or> fst (snd (defaultHandler ext k st mst)) = AddNote (''Unbound: '' @ key_String ext k) st"
  by (simp add: defaultHandler_def Let_def)

lemma defaultBinding_editor_state:
  "fst (snd (defaultBinding names ext k st mst)) = st
   \<or> fst (snd (defaultBinding names ext k st mst)) = SetMode nilMode st
   \<or> fst (snd (defaultBinding names ext k st mst)) = AddNote (''Unbound: '' @ key_String ext k) st"
  using defaultHandler_editor_state [of ext k st mst] by (simp add: defaultBinding_def)

lemma HandleEvent_builtin_editor_state:
  "fst (snd (HandleEvent names ext None m (KeyEvent k) st)) = st
   \<or> fst (snd (HandleEvent names ext None m (KeyEvent k) st)) = SetMode nilMode st
   \<or> fst (snd (HandleEvent names ext None m (KeyEvent k) st))
       = AddNote (''Unbound: '' @ key_String ext k) st"
  using defaultBinding_editor_state [of names ext k st "state m"]
  by (simp add: HandleEvent_def Let_def case_prod_unfold)

lemma HandleEvent_builtin_filter_key:
  assumes "k \<noteq> KMod 0x5B (ui_Ctrl names)" and "k \<noteq> K (ui_Down names)"
    and "k \<noteq> K (ui_Up names)" and "k \<noteq> K (ui_Tab names)"
    and "k \<noteq> KMod (ui_Tab names) (ui_Shift names)" and "k \<noteq> KMod 0x46 (ui_Ctrl names)"
    and "filtering (state m)" and "k \<noteq> K (ui_Backspace ext)" and "likeChar ext k"
  shows "HandleEvent names ext None m (KeyEvent k) st
       = (0, st, m\<lparr>state := refilter (filter_text (state m) @ EncodeRune (Rune k)) (state m)\<rparr>)"
  using assms by (simp add: HandleEvent_def defaultBinding_def defaultHandler_def Let_def)

text \<open>
  Claim C5. After any filter-driven default-key handling, if auto-accept is configured
  and the item count is exactly 1, the sole item is accepted and the mode set to none.
  This does not hold of the default-key handling by \<^verbatim>\<open>HandleEvent\<close>: a mode with
  auto-accept configured, no \<^verbatim>\<open>KeyHandler\<close>, filtering on and the filter "x" gets
  the key "y"; the filter becomes "xy" and the producer returns a single item, but the
  editor state is unchanged: no item is accepted and the mode is still active. On the
  same mode and state \<^verbatim>\<open>Mode.DefaultHandler\<close>, with "y" as the binding key, accepts
  item 0 and sets the mode to \<open>nilMode\<close>.
\<close>

theorem HandleEvent_misses_auto_accept:
  "AutoAccept (config (exampleListingMode ''x''))
   \<and> filtering (state (exampleListingMode ''x''))
   \<and> HandleEvent exampleKeys asciiExt None (exampleListingMode ''x'') (KeyEvent (K 0x79))
        (emptyState\<lparr>Mode := otherMode (), BindingKey := K 0x79\<rparr>)
       = (0, emptyState\<lparr>Mode := otherMode (), BindingKey := K 0x79\<rparr>, exampleListingMode ''xy'')
   \<and> Mode (emptyState\<lparr>Mode := otherMode (), BindingKey := K 0x79\<rparr>) = otherMode ()
   \<and> Notes (emptyState\<lparr>Mode := otherMode (), BindingKey := K 0x79\<rparr>) = []
   \<and> filter_text (state (exampleListingMode ''xy'')) = ''xy''
   \<and> Len (items (state (exampleListingMode ''xy''))) = 1
   \<and> DefaultHandler asciiExt (exampleListingMode ''x'')
        (emptyState\<lparr>Mode := otherMode (), BindingKey := K 0x79\<rparr>)
       = (emptyState\<lparr>Mode := nilMode, Notes := [''accepted 0''], BindingKey := K 0x79\<rparr>,
          exampleListingMode ''xy'')"
proof -
  let ?st = "emptyState\<lparr>Mode := otherMode (), BindingKey := K 0x79\<rparr>"
  have k: "BindingKey ?st = K 0x79" by simp
  have dh: "defaultHandler asciiExt (K 0x79) ?st (exampleListing ''x'')
            = (0, ?st, exampleListing ''xy'')"
    using asciiExt_simps EncodeRune_examples exampleListing_simps
    by (simp add: defaultHandler_def Let_def)
  have nk: "K 0x79 \<noteq> KMod 0x5B (ui_Ctrl exampleKeys)" "K 0x79 \<noteq> K (ui_Down exampleKeys)"
    "K 0x79 \<noteq> K (ui_Up exampleKeys)" "K 0x79 \<noteq> K (ui_Tab exampleKeys)"
    "K 0x79 \<noteq> KMod (ui_Tab exampleKeys) (ui_Shift exampleKeys)"
    "K 0x79 \<noteq> KMod 0x46 (ui_Ctrl exampleKeys)"
    by (simp_all add: K_def KMod_def exampleKeys_def)
  have db: "defaultBinding exampleKeys asciiExt (K 0x79) ?st (exampleListing ''x'')
            = (0, ?st, exampleListing ''xy'')"
    unfolding defaultBinding_def using nk dh by simp
  have st: "state (exampleListingMode ''x'') = exampleListing ''x''"
    "state (exampleListingMode ''xy'') = exampleListing ''xy''"
    "AutoAccept (config (exampleListingMode ''x''))"
    "(exampleListingMode ''x'')\<lparr>state := exampleListing ''xy''\<rparr> = exampleListingMode ''xy''"
    by (simp_all add: exampleListingMode_def)
  have fl: "filtering (exampleListing ''x'')" "filter_text (exampleListing ''xy'') = ''xy''"
    by (simp_all add: exampleListing_def)
  have len: "Len (items (exampleListing ''xy'')) = 1"
    by (simp add: exampleListing_def exampleGetter_def notingItems_def)
  have acc: "Accept (items (exampleListing ''xy'')) 0 ?st = ?st\<lparr>Notes := [''accepted 0'']\<rparr>"
    by (simp add: exampleListing_def exampleGetter_def notingItems_def AddNote_def emptyState_def
        char_of_eq_iff)
  have he: "HandleEvent exampleKeys asciiExt None (exampleListingMode ''x'') (KeyEvent (K 0x79)) ?st
       = (0, ?st, exampleListingMode ''xy'')"
    by (simp add: HandleEvent_def st db)
  have d: "DefaultHandler asciiExt (exampleListingMode ''x'') ?st
       = (emptyState\<lparr>Mode := nilMode, Notes := [''accepted 0''], BindingKey := K 0x79\<rparr>,
          exampleListingMode ''xy'')"
  proof -
    have "DefaultHandler asciiExt (exampleListingMode ''x'') ?st
       = (SetMode nilMode (?st\<lparr>Notes := [''accepted 0'']\<rparr>), exampleListingMode ''xy'')"
      using len by (simp add: DefaultHandler_def Let_def k st dh acc)
    then show ?thesis by (simp add: SetMode_def emptyState_def)
  qed
  have e: "Mode ?st = otherMode ()" "Notes ?st = []" by (simp_all add: emptyState_def)
  from st(3) fl he len d e show ?thesis by (simp add: st)
qed

end
